theory Spec2Isabelle
  imports Main "HOL-Library.AList"
begin

section \<open>Strings and JSON values of the JavaScript program\<close>

text \<open>
  A JavaScript string is a sequence of UTF-16 code units; a code unit is modelled by
  its number. \<open>js\<close> turns a literal of the source into that representation.
\<close>

type_synonym jstring = "nat list"

definition js :: "string \<Rightarrow> jstring" where
  "js s = map of_char s"

text \<open>
  A value produced by \<open>JSON.parse\<close>. A number keeps the decimal literal it was read
  from: \<open>JNumber m e\<close> stands for the double nearest to \<open>m * 10 ^ e\<close>. An object is the
  list of its own properties in insertion order, each key once.
\<close>

datatype json =
    JNull
  | JBool bool
  | JNumber int int
  | JString jstring
  | JArray "json list"
  | JObject "(jstring \<times> json) list"

text \<open>
  Every \<open>throw\<close> of the program, one constructor for each message template; the
  wrappers that re-throw \<open>new Error(prefix + error.message)\<close> keep the wrapped error.
  \<open>TypeError\<close> is the error the JavaScript runtime raises itself (a call of something
  that is not a function, a property read on \<open>null\<close>, \<open>in\<close> applied to a primitive).
\<close>

datatype js_error =
    TypeError
  | RequestFailed jstring
  | Error jstring
  | EmptyResponseReceived
  | NoValidLinesFound
  | NoValidJsonObjectsFound
  | NoDataOrNextPageToken
  | UnexpectedResponseFormat json
  | QueryTimedOut nat
  | FailedToQueryTable js_error
  | InvalidJsonResponse jstring
  | SqlQueryError json
  | PollingFailed js_error
  | SqlQueryTimedOut int nat
  | FailedToExecuteSqlQuery js_error
  | UnknownTool jstring

subsection \<open>String methods\<close>

definition startsWith :: "jstring \<Rightarrow> jstring \<Rightarrow> bool" where
  "startsWith s p = (take (length p) s = p)"

definition endsWith :: "jstring \<Rightarrow> jstring \<Rightarrow> bool" where
  "endsWith s p = startsWith (rev s) (rev p)"

text \<open>
  \<open>String.prototype.trim\<close> removes the code units of WhiteSpace and LineTerminator
  of ECMAScript from both ends.
\<close>

definition is_js_whitespace :: "nat \<Rightarrow> bool" where
  "is_js_whitespace c =
     (c = 0x09 \<or> c = 0x0A \<or> c = 0x0B \<or> c = 0x0C \<or> c = 0x0D \<or> c = 0x20 \<or> c = 0xA0
      \<or> c = 0x1680 \<or> (0x2000 \<le> c \<and> c \<le> 0x200A) \<or> c = 0x2028 \<or> c = 0x2029
      \<or> c = 0x202F \<or> c = 0x205F \<or> c = 0x3000 \<or> c = 0xFEFF)"

definition trim :: "jstring \<Rightarrow> jstring" where
  "trim s = rev (dropWhile is_js_whitespace (rev (dropWhile is_js_whitespace s)))"

text \<open>
  \<open>s.split('\n')\<close>: the segments between line feeds; never an empty list. The
  segment being read is kept in reverse.
\<close>

fun split_from :: "jstring \<Rightarrow> jstring \<Rightarrow> jstring list" where
  "split_from cur [] = [rev cur]"
| "split_from cur (c # cs) =
     (if c = 0x0A then rev cur # split_from [] cs else split_from (c # cur) cs)"

definition split_nl :: "jstring \<Rightarrow> jstring list" where
  "split_nl s = split_from [] s"

section \<open>Tool dispatch layer: the network-address resolver\<close>

definition knownNetworks :: "(jstring \<times> jstring) list" where
  "knownNetworks =
     [(js ''hifisolves'', js ''hifisolves.org''),
      (js ''neuroscience'', js ''neuroscience.ai''),
      (js ''asap'', js ''cloud.parkinsonsroadmap.org''),
      (js ''parkinsons'', js ''cloud.parkinsonsroadmap.org''),
      (js ''biomedical'', js ''biomedical.ai''),
      (js ''viral'', js ''viral.ai''),
      (js ''targetals'', js ''dataportal.targetals.org'')]"

text \<open>
  \<open>network in knownNetworks\<close> also holds for the properties the object literal inherits
  from \<open>Object.prototype\<close>. Their values are functions (for \<open>__proto__\<close> an object), so
  the call of \<open>network.startsWith\<close> that follows raises a \<open>TypeError\<close>.
\<close>

definition Object_prototype_properties :: "jstring list" where
  "Object_prototype_properties =
     [js ''constructor'', js ''__defineGetter__'', js ''__defineSetter__'',
      js ''hasOwnProperty'', js ''__lookupGetter__'', js ''__lookupSetter__'',
      js ''isPrototypeOf'', js ''propertyIsEnumerable'', js ''toString'',
      js ''valueOf'', js ''__proto__'', js ''toLocaleString'']"

definition with_scheme :: "jstring \<Rightarrow> jstring" where
  "with_scheme network =
     (if \<not> startsWith network (js ''http://'') \<and> \<not> startsWith network (js ''https://'')
      then js ''https://'' @ network else network)"

text \<open>
  \<open>network.replace(/\/$/, '')\<close>: the pattern has no flag, so it matches one slash at
  the very end of the string, and only the first match is replaced.
\<close>

definition strip_trailing_slash :: "jstring \<Rightarrow> jstring" where
  "strip_trailing_slash s = (if endsWith s (js ''/'') then butlast s else s)"

definition getNetworkUrl :: "jstring \<Rightarrow> js_error + jstring" where
  "getNetworkUrl network =
     (case map_of knownNetworks network of
        Some host \<Rightarrow> Inr (strip_trailing_slash (with_scheme host))
      | None \<Rightarrow>
          if network \<in> set Object_prototype_properties then Inl TypeError
          else Inr (strip_trailing_slash (with_scheme network)))"

section \<open>The runtime's \<open>JSON.parse\<close>\<close>

text \<open>
  \<open>JSON.parse\<close> on a string, as ECMA-404 and ECMA-262 define it: a lexer that reads the
  text one code unit at a time, and a parser that builds the value from the tokens with
  an explicit stack of the arrays and objects that are still open. \<open>None\<close> is the
  \<open>SyntaxError\<close>.
\<close>

datatype token =
    TLBrace | TRBrace | TLBrack | TRBrack | TColon | TComma
  | TString jstring
  | TScalar json

text \<open>
  The phases of a number literal: after the minus sign, after a leading zero, in the
  integer digits, after the decimal point, in the fraction digits, after the exponent
  letter, after the exponent's sign, in the exponent digits.
\<close>

datatype num_phase = NMinus | NZero | NInt | NDot | NFrac | NExp | NExpSign | NExpDigits

record num_acc =
  negative :: bool
  mantissa :: nat
  frac_digits :: nat
  exp_negative :: bool
  exponent :: nat

datatype lex_state =
    LStart
  | LString jstring
  | LEscape jstring
  | LUnicode jstring nat nat
  | LLiteral jstring token
  | LNumber num_phase num_acc

definition is_digit :: "nat \<Rightarrow> bool" where
  "is_digit c = (0x30 \<le> c \<and> c \<le> 0x39)"

definition hex_value :: "nat \<Rightarrow> nat option" where
  "hex_value c =
     (if 0x30 \<le> c \<and> c \<le> 0x39 then Some (c - 0x30)
      else if 0x41 \<le> c \<and> c \<le> 0x46 then Some (c - 0x41 + 10)
      else if 0x61 \<le> c \<and> c \<le> 0x66 then Some (c - 0x61 + 10)
      else None)"

definition is_json_whitespace :: "nat \<Rightarrow> bool" where
  "is_json_whitespace c = (c = 0x20 \<or> c = 0x09 \<or> c = 0x0A \<or> c = 0x0D)"

definition number_of :: "num_acc \<Rightarrow> json" where
  "number_of a =
     JNumber (if negative a then - int (mantissa a) else int (mantissa a))
             ((if exp_negative a then - int (exponent a) else int (exponent a))
                - int (frac_digits a))"

definition new_number :: "bool \<Rightarrow> nat \<Rightarrow> num_acc" where
  "new_number neg m =
     \<lparr>negative = neg, mantissa = m, frac_digits = 0, exp_negative = False, exponent = 0\<rparr>"

text \<open>The first code unit of a token.\<close>

definition start_step :: "nat \<Rightarrow> (token list \<times> lex_state) option" where
  "start_step c =
     (if is_json_whitespace c then Some ([], LStart)
      else if c = 0x7B then Some ([TLBrace], LStart)
      else if c = 0x7D then Some ([TRBrace], LStart)
      else if c = 0x5B then Some ([TLBrack], LStart)
      else if c = 0x5D then Some ([TRBrack], LStart)
      else if c = 0x3A then Some ([TColon], LStart)
      else if c = 0x2C then Some ([TComma], LStart)
      else if c = 0x22 then Some ([], LString [])
      else if c = 0x74 then Some ([], LLiteral (js ''rue'') (TScalar (JBool True)))
      else if c = 0x66 then Some ([], LLiteral (js ''alse'') (TScalar (JBool False)))
      else if c = 0x6E then Some ([], LLiteral (js ''ull'') (TScalar JNull))
      else if c = 0x2D then Some ([], LNumber NMinus (new_number True 0))
      else if c = 0x30 then Some ([], LNumber NZero (new_number False 0))
      else if is_digit c then Some ([], LNumber NInt (new_number False (c - 0x30)))
      else None)"

text \<open>A number literal is over: its token, then the code unit that ended it.\<close>

definition end_number :: "num_acc \<Rightarrow> nat \<Rightarrow> (token list \<times> lex_state) option" where
  "end_number a c =
     (case start_step c of
        None \<Rightarrow> None
      | Some (ts, st) \<Rightarrow> Some (TScalar (number_of a) # ts, st))"

definition is_exp_letter :: "nat \<Rightarrow> bool" where
  "is_exp_letter c = (c = 0x65 \<or> c = 0x45)"

fun number_step :: "num_phase \<Rightarrow> num_acc \<Rightarrow> nat \<Rightarrow> (token list \<times> lex_state) option" where
  "number_step NMinus a c =
     (if c = 0x30 then Some ([], LNumber NZero a)
      else if is_digit c then Some ([], LNumber NInt (a\<lparr>mantissa := c - 0x30\<rparr>))
      else None)"
| "number_step NZero a c =
     (if c = 0x2E then Some ([], LNumber NDot a)
      else if is_exp_letter c then Some ([], LNumber NExp a)
      else end_number a c)"
| "number_step NInt a c =
     (if is_digit c then Some ([], LNumber NInt (a\<lparr>mantissa := mantissa a * 10 + (c - 0x30)\<rparr>))
      else if c = 0x2E then Some ([], LNumber NDot a)
      else if is_exp_letter c then Some ([], LNumber NExp a)
      else end_number a c)"
| "number_step NDot a c =
     (if is_digit c
      then Some ([], LNumber NFrac
             (a\<lparr>mantissa := mantissa a * 10 + (c - 0x30), frac_digits := frac_digits a + 1\<rparr>))
      else None)"
| "number_step NFrac a c =
     (if is_digit c
      then Some ([], LNumber NFrac
             (a\<lparr>mantissa := mantissa a * 10 + (c - 0x30), frac_digits := frac_digits a + 1\<rparr>))
      else if is_exp_letter c then Some ([], LNumber NExp a)
      else end_number a c)"
| "number_step NExp a c =
     (if c = 0x2B then Some ([], LNumber NExpSign a)
      else if c = 0x2D then Some ([], LNumber NExpSign (a\<lparr>exp_negative := True\<rparr>))
      else if is_digit c then Some ([], LNumber NExpDigits (a\<lparr>exponent := c - 0x30\<rparr>))
      else None)"
| "number_step NExpSign a c =
     (if is_digit c then Some ([], LNumber NExpDigits (a\<lparr>exponent := c - 0x30\<rparr>))
      else None)"
| "number_step NExpDigits a c =
     (if is_digit c
      then Some ([], LNumber NExpDigits (a\<lparr>exponent := exponent a * 10 + (c - 0x30)\<rparr>))
      else end_number a c)"

text \<open>
  Inside a string literal the code units so far are kept in reverse. A control
  character (below \<open>0x20\<close>) may not stand unescaped; the escapes are the nine of JSON.
\<close>

definition escape_step :: "jstring \<Rightarrow> nat \<Rightarrow> (token list \<times> lex_state) option" where
  "escape_step acc c =
     (if c = 0x22 then Some ([], LString (0x22 # acc))
      else if c = 0x5C then Some ([], LString (0x5C # acc))
      else if c = 0x2F then Some ([], LString (0x2F # acc))
      else if c = 0x62 then Some ([], LString (0x08 # acc))
      else if c = 0x66 then Some ([], LString (0x0C # acc))
      else if c = 0x6E then Some ([], LString (0x0A # acc))
      else if c = 0x72 then Some ([], LString (0x0D # acc))
      else if c = 0x74 then Some ([], LString (0x09 # acc))
      else if c = 0x75 then Some ([], LUnicode acc 0 0)
      else None)"

fun lex_step :: "lex_state \<Rightarrow> nat \<Rightarrow> (token list \<times> lex_state) option" where
  "lex_step LStart c = start_step c"
| "lex_step (LString acc) c =
     (if c = 0x22 then Some ([TString (rev acc)], LStart)
      else if c = 0x5C then Some ([], LEscape acc)
      else if c < 0x20 then None
      else Some ([], LString (c # acc)))"
| "lex_step (LEscape acc) c = escape_step acc c"
| "lex_step (LUnicode acc n v) c =
     (case hex_value c of
        None \<Rightarrow> None
      | Some d \<Rightarrow>
          if n = 3 then Some ([], LString ((v * 16 + d) # acc))
          else Some ([], LUnicode acc (n + 1) (v * 16 + d)))"
| "lex_step (LLiteral rest tok) c =
     (case rest of
        [] \<Rightarrow> None
      | r # rs \<Rightarrow>
          if c \<noteq> r then None
          else if rs = [] then Some ([tok], LStart)
          else Some ([], LLiteral rs tok))"
| "lex_step (LNumber ph a) c = number_step ph a c"

text \<open>The end of the text: only between tokens, or after a complete number.\<close>

fun lex_end :: "lex_state \<Rightarrow> token list option" where
  "lex_end LStart = Some []"
| "lex_end (LNumber ph a) =
     (if ph = NZero \<or> ph = NInt \<or> ph = NFrac \<or> ph = NExpDigits
      then Some [TScalar (number_of a)] else None)"
| "lex_end _ = None"

fun lex :: "lex_state \<Rightarrow> jstring \<Rightarrow> token list option" where
  "lex st [] = lex_end st"
| "lex st (c # cs) =
     (case lex_step st c of
        None \<Rightarrow> None
      | Some (ts, st') \<Rightarrow>
          (case lex st' cs of None \<Rightarrow> None | Some rest \<Rightarrow> Some (ts @ rest)))"

text \<open>
  The containers that are still open: an array with its elements so far (in reverse),
  an object with its members so far, and an object whose next value belongs to a key
  already read. A repeated key keeps its place and takes the later value.
\<close>

datatype frame =
    FArray "json list"
  | FObject "(jstring \<times> json) list"
  | FMember "(jstring \<times> json) list" jstring

datatype parse_state =
    PValue "frame list"
  | PArrayStart "frame list"
  | PObjectStart "frame list"
  | PKey "frame list"
  | PColon "frame list"
  | PAfter "frame list"
  | PDone json

text \<open>A value is complete: it is the result, or goes into the innermost open container.\<close>

fun complete :: "json \<Rightarrow> frame list \<Rightarrow> parse_state option" where
  "complete v [] = Some (PDone v)"
| "complete v (FArray es # st) = Some (PAfter (FArray (v # es) # st))"
| "complete v (FMember ms k # st) = Some (PAfter (FObject (AList.update k v ms) # st))"
| "complete v (FObject ms # st) = None"

fun value_token :: "token \<Rightarrow> frame list \<Rightarrow> parse_state option" where
  "value_token (TScalar v) st = complete v st"
| "value_token (TString s) st = complete (JString s) st"
| "value_token TLBrack st = Some (PArrayStart (FArray [] # st))"
| "value_token TLBrace st = Some (PObjectStart (FObject [] # st))"
| "value_token _ st = None"

fun key_token :: "token \<Rightarrow> frame list \<Rightarrow> parse_state option" where
  "key_token (TString k) (FObject ms # st) = Some (PColon (FMember ms k # st))"
| "key_token _ _ = None"

fun close_array :: "frame list \<Rightarrow> parse_state option" where
  "close_array (FArray es # st) = complete (JArray (rev es)) st"
| "close_array _ = None"

fun close_object :: "frame list \<Rightarrow> parse_state option" where
  "close_object (FObject ms # st) = complete (JObject ms) st"
| "close_object _ = None"

fun parse_step :: "parse_state \<Rightarrow> token \<Rightarrow> parse_state option" where
  "parse_step (PValue st) t = value_token t st"
| "parse_step (PArrayStart st) t = (if t = TRBrack then close_array st else value_token t st)"
| "parse_step (PObjectStart st) t = (if t = TRBrace then close_object st else key_token t st)"
| "parse_step (PKey st) t = key_token t st"
| "parse_step (PColon st) t = (if t = TColon then Some (PValue st) else None)"
| "parse_step (PAfter (FArray es # st)) t =
     (if t = TComma then Some (PValue (FArray es # st))
      else if t = TRBrack then close_array (FArray es # st)
      else None)"
| "parse_step (PAfter (FObject ms # st)) t =
     (if t = TComma then Some (PKey (FObject ms # st))
      else if t = TRBrace then close_object (FObject ms # st)
      else None)"
| "parse_step (PAfter _) t = None"
| "parse_step (PDone v) t = None"

fun parse_tokens :: "parse_state \<Rightarrow> token list \<Rightarrow> json option" where
  "parse_tokens st [] = (case st of PDone v \<Rightarrow> Some v | _ \<Rightarrow> None)"
| "parse_tokens st (t # ts) =
     (case parse_step st t of None \<Rightarrow> None | Some st' \<Rightarrow> parse_tokens st' ts)"

definition JSON_parse :: "jstring \<Rightarrow> json option" where
  "JSON_parse s =
     (case lex LStart s of
        None \<Rightarrow> None
      | Some ts \<Rightarrow> parse_tokens (PValue []) ts)"

section \<open>JavaScript's view of a JSON value\<close>

text \<open>
  A number literal \<open>m * 10 ^ e\<close> is read as the nearest double, ties to even. It becomes
  a zero exactly when its magnitude is at most \<open>2 ^ -1075\<close>, half of the least positive
  double.
\<close>

definition rounds_to_zero :: "int \<Rightarrow> int \<Rightarrow> bool" where
  "rounds_to_zero m e = (m = 0 \<or> (e < 0 \<and> \<bar>m\<bar> * 2 ^ 1075 \<le> 10 ^ nat (- e)))"

text \<open>\<open>ToBoolean\<close>: what \<open>if (v)\<close>, \<open>!v\<close> and \<open>v && ...\<close> test.\<close>

fun truthy :: "json \<Rightarrow> bool" where
  "truthy JNull = False"
| "truthy (JBool b) = b"
| "truthy (JNumber m e) = (\<not> rounds_to_zero m e)"
| "truthy (JString s) = (s \<noteq> [])"
| "truthy (JArray xs) = True"
| "truthy (JObject ms) = True"

text \<open>A truthy value that is not an object: \<open>key in v\<close> raises a \<open>TypeError\<close> on it.\<close>

fun is_object :: "json \<Rightarrow> bool" where
  "is_object (JArray xs) = True"
| "is_object (JObject ms) = True"
| "is_object _ = False"

text \<open>
  \<open>key in obj\<close>, for a key that is neither an array index, \<open>length\<close>, nor a name that a
  prototype defines; \<open>data\<close> and \<open>next_page_token\<close>, the keys the program tests, are such.
\<close>

fun in_operator :: "jstring \<Rightarrow> json \<Rightarrow> js_error + bool" where
  "in_operator key (JObject ms) = Inr (key \<in> fst ` set ms)"
| "in_operator key (JArray xs) = Inr False"
| "in_operator key _ = Inl TypeError"

text \<open>
  \<open>v.key\<close> on a value that is not \<open>null\<close>, for the same kind of key; \<open>None\<close> is
  \<open>undefined\<close>.
\<close>

fun member :: "json \<Rightarrow> jstring \<Rightarrow> json option" where
  "member (JObject ms) key = map_of ms key"
| "member _ key = None"

text \<open>\<open>Object.keys(v).length > 0\<close> on a value that is not \<open>null\<close>.\<close>

fun has_keys :: "json \<Rightarrow> bool" where
  "has_keys (JObject ms) = (ms \<noteq> [])"
| "has_keys (JArray xs) = (xs \<noteq> [])"
| "has_keys (JString s) = (s \<noteq> [])"
| "has_keys _ = False"

fun isArray :: "json option \<Rightarrow> bool" where
  "isArray (Some (JArray xs)) = True"
| "isArray _ = False"

text \<open>
  \<open>v.length\<close> on a truthy value: the length of an array or a string, the member of that
  name of an object, \<open>undefined\<close> otherwise.
\<close>

fun js_length :: "json \<Rightarrow> json option" where
  "js_length (JArray xs) = Some (JNumber (int (length xs)) 0)"
| "js_length (JString s) = Some (JNumber (int (length s)) 0)"
| "js_length (JObject ms) = map_of ms (js ''length'')"
| "js_length _ = None"

text \<open>\<open>v[0]\<close> on a truthy value.\<close>

fun first_element :: "json \<Rightarrow> json option" where
  "first_element (JArray xs) = (case xs of [] \<Rightarrow> None | x # rest \<Rightarrow> Some x)"
| "first_element (JString s) = (case s of [] \<Rightarrow> None | c # rest \<Rightarrow> Some (JString [c]))"
| "first_element (JObject ms) = map_of ms (js ''0'')"
| "first_element _ = None"

text \<open>
  \<open>x > 0\<close>. The operand is converted by \<open>ToNumber\<close>: a string by the grammar of
  \<open>StringNumericLiteral\<close> (white space around an optionally signed decimal literal or
  \<open>Infinity\<close>, or an unsigned binary, octal or hexadecimal integer), an array through
  the string that joins its elements with commas, an object to \<open>NaN\<close>. The functions
  below say whether the number is positive.
\<close>

definition digits_value :: "jstring \<Rightarrow> nat" where
  "digits_value ds = foldl (\<lambda>v c. v * 10 + (c - 0x30)) 0 ds"

definition all_digits :: "jstring \<Rightarrow> bool" where
  "all_digits ds = (ds \<noteq> [] \<and> list_all is_digit ds)"

definition exponent_part :: "jstring \<Rightarrow> int option" where
  "exponent_part r =
     (case r of
        [] \<Rightarrow> Some 0
      | c # r' \<Rightarrow>
          if \<not> is_exp_letter c then None
          else (case r' of
                  [] \<Rightarrow> None
                | s # ds \<Rightarrow>
                    if s = 0x2B then (if all_digits ds then Some (int (digits_value ds)) else None)
                    else if s = 0x2D then (if all_digits ds then Some (- int (digits_value ds)) else None)
                    else if all_digits r' then Some (int (digits_value r'))
                    else None))"

definition unsigned_decimal_positive :: "jstring \<Rightarrow> bool" where
  "unsigned_decimal_positive t =
     (t = js ''Infinity'' \<or>
      (let ip = takeWhile is_digit t;
           r1 = dropWhile is_digit t;
           dot = (r1 \<noteq> [] \<and> hd r1 = 0x2E);
           fp = (if dot then takeWhile is_digit (tl r1) else []);
           r2 = (if dot then dropWhile is_digit (tl r1) else r1)
       in (ip \<noteq> [] \<or> fp \<noteq> [])
          \<and> (case exponent_part r2 of
                None \<Rightarrow> False
              | Some e \<Rightarrow>
                  0 < digits_value (ip @ fp)
                  \<and> \<not> rounds_to_zero (int (digits_value (ip @ fp))) (e - int (length fp)))))"

definition radix_integer_positive :: "jstring \<Rightarrow> bool" where
  "radix_integer_positive t =
     (case t of
        z # x # ds \<Rightarrow>
          z = 0x30 \<and> ds \<noteq> [] \<and> (\<exists>d \<in> set ds. d \<noteq> 0x30)
          \<and> (((x = 0x78 \<or> x = 0x58) \<and> list_all (\<lambda>d. hex_value d \<noteq> None) ds)
             \<or> ((x = 0x6F \<or> x = 0x4F) \<and> list_all (\<lambda>d. 0x30 \<le> d \<and> d \<le> 0x37) ds)
             \<or> ((x = 0x62 \<or> x = 0x42) \<and> list_all (\<lambda>d. d = 0x30 \<or> d = 0x31) ds))
      | _ \<Rightarrow> False)"

definition string_to_number_positive :: "jstring \<Rightarrow> bool" where
  "string_to_number_positive s =
     (case trim s of
        [] \<Rightarrow> False
      | c # r \<Rightarrow>
          if c = 0x2D then False
          else if c = 0x2B then unsigned_decimal_positive r
          else radix_integer_positive (c # r) \<or> unsigned_decimal_positive (c # r))"

text \<open>
  Converting an object to a primitive calls its \<open>toString\<close>; an own member of that name
  is not a function, and the conversion raises a \<open>TypeError\<close>. An array is converted
  through the strings of its elements (\<open>null\<close> gives the empty string).
\<close>

fun conversion_throws :: "json \<Rightarrow> bool" where
  "conversion_throws (JObject ms) = (js ''toString'' \<in> fst ` set ms)"
| "conversion_throws (JArray xs) = (\<exists>x \<in> set xs. conversion_throws x)"
| "conversion_throws _ = False"

text \<open>
  Whether \<open>ToNumber\<close> of a value whose conversion does not throw is positive.
  \<open>in_array\<close> says that the value is the only element of an array that is being
  converted: \<open>null\<close> and the booleans then go through their strings \<open>''\<close>, \<open>true\<close> and
  \<open>false\<close>. An array of two or more elements gives a string with a comma, which is no
  number; an object gives \<open>[object Object]\<close>.
\<close>

fun to_number_positive :: "bool \<Rightarrow> json \<Rightarrow> bool" where
  "to_number_positive in_array JNull = False"
| "to_number_positive in_array (JBool b) = (\<not> in_array \<and> b)"
| "to_number_positive in_array (JNumber m e) = (0 < m \<and> \<not> rounds_to_zero m e)"
| "to_number_positive in_array (JString s) = string_to_number_positive s"
| "to_number_positive in_array (JObject ms) = False"
| "to_number_positive in_array (JArray xs) =
     (case xs of [x] \<Rightarrow> to_number_positive True x | _ \<Rightarrow> False)"

text \<open>\<open>x === 0\<close>.\<close>

fun is_zero :: "json option \<Rightarrow> bool" where
  "is_zero (Some (JNumber m e)) = rounds_to_zero m e"
| "is_zero _ = False"

text \<open>
  \<open>v && v.length > 0\<close> and \<open>v && v.length === 0\<close>, for a member \<open>v\<close> that may be absent.
  The comparison with \<open>>\<close> converts the length and may raise.
\<close>

definition nonempty_member :: "json option \<Rightarrow> js_error + bool" where
  "nonempty_member v =
     (case v of
        None \<Rightarrow> Inr False
      | Some x \<Rightarrow>
          if \<not> truthy x then Inr False
          else (case js_length x of
                  None \<Rightarrow> Inr False
                | Some n \<Rightarrow>
                    if conversion_throws n then Inl TypeError
                    else Inr (to_number_positive False n)))"

fun empty_member :: "json option \<Rightarrow> bool" where
  "empty_member None = False"
| "empty_member (Some v) = (truthy v \<and> is_zero (js_length v))"

text \<open>The truth of a member that may be absent.\<close>

fun truthy_member :: "json option \<Rightarrow> bool" where
  "truthy_member None = False"
| "truthy_member (Some v) = truthy v"

text \<open>
  \<open>ToString\<close> of a value whose conversion does not throw. \<open>number_text m e\<close> is the
  text that the runtime's \<open>Number::toString\<close> gives for the double of the literal
  \<open>m * 10 ^ e\<close>; it is a parameter. An array joins the strings of its elements with
  commas, \<open>null\<close> giving the empty string.
\<close>

fun join_commas :: "jstring list \<Rightarrow> jstring" where
  "join_commas [] = []"
| "join_commas [t] = t"
| "join_commas (t # u # ts) = t @ 0x2C # join_commas (u # ts)"

fun to_string :: "(int \<Rightarrow> int \<Rightarrow> jstring) \<Rightarrow> json \<Rightarrow> jstring" where
  "to_string number_text JNull = js ''null''"
| "to_string number_text (JBool b) = (if b then js ''true'' else js ''false'')"
| "to_string number_text (JNumber m e) = number_text m e"
| "to_string number_text (JString s) = s"
| "to_string number_text (JObject ms) = js ''[object Object]''"
| "to_string number_text (JArray xs) =
     join_commas (map (\<lambda>x. if x = JNull then [] else to_string number_text x) xs)"

text \<open>
  \<open>JSON.parse(v)\<close> for any value \<open>v\<close>: the argument is converted to a string first.
  \<open>None\<close> when the call throws, the \<open>TypeError\<close> of the conversion or the \<open>SyntaxError\<close>
  of the text.
\<close>

definition JSON_parse_value :: "(int \<Rightarrow> int \<Rightarrow> jstring) \<Rightarrow> json \<Rightarrow> json option" where
  "JSON_parse_value number_text v =
     (if conversion_throws v then None else JSON_parse (to_string number_text v))"

section \<open>The line-delimited response classifier\<close>

text \<open>
  The loop \<open>for (i = jsonObjects.length - 1; i >= 0; i--) if (obj && key in obj) return obj\<close>,
  run on the reversed list: a falsy value is passed over, a truthy primitive makes
  \<open>in\<close> raise.
\<close>

fun scan_for :: "jstring \<Rightarrow> json list \<Rightarrow> js_error + json option" where
  "scan_for key [] = Inr None"
| "scan_for key (obj # rest) =
     (if \<not> truthy obj then scan_for key rest
      else case in_operator key obj of
             Inl e \<Rightarrow> Inl e
           | Inr True \<Rightarrow> Inr (Some obj)
           | Inr False \<Rightarrow> scan_for key rest)"

definition response_lines :: "jstring \<Rightarrow> jstring list" where
  "response_lines rawText = filter (\<lambda>line. line \<noteq> []) (map trim (split_nl (trim rawText)))"

definition parseJsonLinesResponse :: "jstring \<Rightarrow> js_error + json" where
  "parseJsonLinesResponse rawText =
     (if trim rawText = [] then Inl EmptyResponseReceived
      else
        let lines = response_lines rawText in
        if lines = [] then Inl NoValidLinesFound
        else
          let jsonObjects = List.map_filter JSON_parse lines in
          if jsonObjects = [] then Inl NoValidJsonObjectsFound
          else
            case scan_for (js ''data'') (rev jsonObjects) of
              Inl e \<Rightarrow> Inl e
            | Inr (Some obj) \<Rightarrow> Inr obj
            | Inr None \<Rightarrow>
                (case scan_for (js ''next_page_token'') (rev jsonObjects) of
                   Inl e \<Rightarrow> Inl e
                 | Inr (Some obj) \<Rightarrow> Inr obj
                 | Inr None \<Rightarrow>
                     let nonEmptyObjects = filter (\<lambda>obj. truthy obj \<and> has_keys obj) jsonObjects in
                     if nonEmptyObjects \<noteq> [] then Inr (last nonEmptyObjects)
                     else Inl NoDataOrNextPageToken))"

subsection \<open>The classifier as the specification words it\<close>

text \<open>
  The reference algorithm, from the specification: the non-blank trimmed lines of the
  body; each parsed on its own, the failures dropped; then, from the last parsed object
  to the first, the first with a \<open>data\<close> field, else the first with a
  \<open>next_page_token\<close> field, else the last with any field at all. A field of an array
  is one of its elements.
\<close>

fun has_field :: "jstring \<Rightarrow> json \<Rightarrow> bool" where
  "has_field key (JObject ms) = (key \<in> fst ` set ms)"
| "has_field key _ = False"

fun has_some_field :: "json \<Rightarrow> bool" where
  "has_some_field (JObject ms) = (ms \<noteq> [])"
| "has_some_field (JArray xs) = (xs \<noteq> [])"
| "has_some_field _ = False"

definition spec_lines :: "jstring \<Rightarrow> jstring list" where
  "spec_lines body = filter (\<lambda>line. line \<noteq> []) (map trim (split_nl body))"

definition spec_classify :: "jstring \<Rightarrow> js_error + json" where
  "spec_classify body =
     (let parsed = List.map_filter JSON_parse (spec_lines body) in
      if parsed = [] then Inl NoValidJsonObjectsFound
      else case find (has_field (js ''data'')) (rev parsed) of
             Some obj \<Rightarrow> Inr obj
           | None \<Rightarrow>
               (case find (has_field (js ''next_page_token'')) (rev parsed) of
                  Some obj \<Rightarrow> Inr obj
                | None \<Rightarrow>
                    (case find has_some_field (rev parsed) of
                       Some obj \<Rightarrow> Inr obj
                     | None \<Rightarrow> Inl NoDataOrNextPageToken)))"

section \<open>The session bridge\<close>

text \<open>
  A session object of the bridge: the partial-line buffer, the receive queue, and the
  worker process, of which the model keeps what was written to its standard input
  (an entry \<open>m\<close> stands for the line \<open>JSON.stringify(m) + '\n'\<close>) and whether \<open>kill()\<close>
  was called on it.
\<close>

record session =
  buffer :: jstring
  responses :: "json list"
  stdin_written :: "json list"
  killed :: bool

subsection \<open>Decoding a chunk\<close>

text \<open>
  \<open>data.toString()\<close> on the \<open>Buffer\<close> of one chunk: the bytes are decoded as UTF-8 into
  UTF-16 code units, each chunk on its own. A byte that cannot begin or continue a
  character, and a character that the chunk leaves unfinished, give U+FFFD. The state of
  the decoder is \<open>Boundary\<close> between characters, and inside a character the code point
  so far, the number of bytes still needed, and the least and greatest byte that may
  come next.
\<close>

type_synonym bytes = "nat list"

datatype utf8_state = Boundary | Inside nat nat nat nat

definition ascii :: "string \<Rightarrow> bytes" where
  "ascii s = map of_char s"

definition code_units :: "nat \<Rightarrow> jstring" where
  "code_units cp =
     (if cp < 0x10000 then [cp]
      else [0xD800 + (cp - 0x10000) div 0x400, 0xDC00 + (cp - 0x10000) mod 0x400])"

definition utf8_lead :: "nat \<Rightarrow> utf8_state \<times> jstring" where
  "utf8_lead b =
     (if b \<le> 0x7F then (Boundary, [b])
      else if 0xC2 \<le> b \<and> b \<le> 0xDF then (Inside (b - 0xC0) 1 0x80 0xBF, [])
      else if 0xE0 \<le> b \<and> b \<le> 0xEF
      then (Inside (b - 0xE0) 2 (if b = 0xE0 then 0xA0 else 0x80)
              (if b = 0xED then 0x9F else 0xBF), [])
      else if 0xF0 \<le> b \<and> b \<le> 0xF4
      then (Inside (b - 0xF0) 3 (if b = 0xF0 then 0x90 else 0x80)
              (if b = 0xF4 then 0x8F else 0xBF), [])
      else (Boundary, [0xFFFD]))"

fun utf8_step :: "utf8_state \<Rightarrow> nat \<Rightarrow> utf8_state \<times> jstring" where
  "utf8_step Boundary b = utf8_lead b"
| "utf8_step (Inside cp needed lower upper) b =
     (if lower \<le> b \<and> b \<le> upper
      then (if needed = 1 then (Boundary, code_units (cp * 64 + (b - 0x80)))
            else (Inside (cp * 64 + (b - 0x80)) (needed - 1) 0x80 0xBF, []))
      else (case utf8_lead b of (st, out) \<Rightarrow> (st, 0xFFFD # out)))"

fun utf8_feed :: "utf8_state \<Rightarrow> bytes \<Rightarrow> utf8_state \<times> jstring" where
  "utf8_feed st [] = (st, [])"
| "utf8_feed st (b # bs) =
     (case utf8_step st b of
        (st', out) \<Rightarrow> (case utf8_feed st' bs of (st'', rest) \<Rightarrow> (st'', out @ rest)))"

definition utf8_flush :: "utf8_state \<Rightarrow> jstring" where
  "utf8_flush st = (case st of Boundary \<Rightarrow> [] | Inside cp needed lower upper \<Rightarrow> [0xFFFD])"

definition Buffer_toString :: "bytes \<Rightarrow> jstring" where
  "Buffer_toString data = (case utf8_feed Boundary data of (st, out) \<Rightarrow> out @ utf8_flush st)"

subsection \<open>Sessions\<close>

text \<open>
  The \<open>data\<close> handler of the worker's standard output, the same code at both places
  that spawn a worker: \<open>session.buffer += data.toString()\<close>, then the split into lines.
  \<open>lines.pop() || ''\<close> is the last segment; the segments before it are complete lines.
\<close>

fun push_messages :: "jstring list \<Rightarrow> json list \<Rightarrow> json list" where
  "push_messages [] queue = queue"
| "push_messages (line # lines) queue =
     (if trim line \<noteq> []
      then (case JSON_parse line of
              Some message \<Rightarrow> push_messages lines (queue @ [message])
            | None \<Rightarrow> push_messages lines queue)
      else push_messages lines queue)"

definition on_stdout_data :: "bytes \<Rightarrow> session \<Rightarrow> session" where
  "on_stdout_data data s =
     (let lines = split_nl (buffer s @ Buffer_toString data)
      in s\<lparr>buffer := last lines, responses := push_messages (butlast lines) (responses s)\<rparr>)"

text \<open>
  The bridge: the session objects by address, and \<open>activeSessions\<close>, the \<open>Map\<close> from
  session id to object in insertion order. A handler that holds an object keeps it
  after the table entry is gone.
\<close>

record bridge =
  objects :: "nat \<Rightarrow> session"
  activeSessions :: "(jstring \<times> nat) list"
  allocated :: nat

datatype body =
    SessionId jstring
  | Message json
  | ErrorBody jstring
  | SessionClosed
  | Sessions "(jstring \<times> bool) list"

datatype http_response = Response nat body

definition update_object :: "nat \<Rightarrow> (session \<Rightarrow> session) \<Rightarrow> bridge \<Rightarrow> bridge" where
  "update_object r f b = b\<lparr>objects := (objects b)(r := f (objects b r))\<rparr>"

text \<open>\<open>POST /session\<close>, with the identifier that \<open>uuidv4()\<close> returned.\<close>

definition create_session :: "jstring \<Rightarrow> bridge \<Rightarrow> http_response \<times> bridge" where
  "create_session sessionId b =
     (let r = allocated b;
          fresh = \<lparr>buffer = [], responses = [], stdin_written = [], killed = False\<rparr>
      in (Response 200 (SessionId sessionId),
          b\<lparr>objects := (objects b)(r := fresh),
            activeSessions := AList.update sessionId r (activeSessions b),
            allocated := Suc r\<rparr>))"

text \<open>
  What happens while a handler sleeps: a worker's output reaches the \<open>data\<close> handler of
  its session object, or a worker exits and its \<open>exit\<close> handler deletes its id.
\<close>

datatype event = StdoutData nat bytes | ProcessExit jstring

fun apply_event :: "bridge \<Rightarrow> event \<Rightarrow> bridge" where
  "apply_event b (StdoutData r chunk) = update_object r (on_stdout_data chunk) b"
| "apply_event b (ProcessExit sessionId) =
     b\<lparr>activeSessions := AList.delete sessionId (activeSessions b)\<rparr>"

text \<open>
  The surroundings of one \<open>Send\<close>: the events that arrive during the \<open>k\<close>-th sleep, and
  by how many milliseconds that sleep of 100 ms runs late.
\<close>

record wait_env =
  arrivals :: "nat \<Rightarrow> event list"
  lateness :: "nat \<Rightarrow> nat"

text \<open>
  \<open>while (session.responses.length === 0) { if (Date.now() - startTime > timeout) return
  504; await sleep(100) }\<close>, then the first response. \<open>elapsed\<close> is
  \<open>Date.now() - startTime\<close>.
\<close>

function wait_for_response ::
  "wait_env \<Rightarrow> nat \<Rightarrow> nat \<Rightarrow> nat \<Rightarrow> bridge \<Rightarrow> http_response \<times> bridge" where
  "wait_for_response env r k elapsed b =
     (if responses (objects b r) \<noteq> []
      then (Response 200 (Message (hd (responses (objects b r)))), b)
      else if elapsed > 30000
      then (Response 504 (ErrorBody (js ''Request timeout'')), b)
      else wait_for_response env r (Suc k) (elapsed + 100 + lateness env k)
             (foldl apply_event b (arrivals env k)))"
  by pat_completeness auto
termination
  by (relation "measure (\<lambda>(env, r, k, elapsed, b). 30001 - elapsed)") auto

text \<open>Clearing the receive queue and writing the message to the worker.\<close>

definition start_send :: "nat \<Rightarrow> json \<Rightarrow> bridge \<Rightarrow> bridge" where
  "start_send r message b =
     update_object r (\<lambda>s. s\<lparr>responses := [], stdin_written := stdin_written s @ [message]\<rparr>) b"

text \<open>
  \<open>POST /session/:sessionId/message\<close>. \<open>message\<close> is the member of that name of the
  request body, \<open>None\<close> when the body has none. Writing a JSON value to the worker's
  standard input does not throw, so the \<open>catch\<close> that answers 500 is never entered.
\<close>

definition send_message ::
  "wait_env \<Rightarrow> jstring \<Rightarrow> json option \<Rightarrow> bridge \<Rightarrow> http_response \<times> bridge" where
  "send_message env sessionId message b =
     (case map_of (activeSessions b) sessionId of
        None \<Rightarrow> (Response 404 (ErrorBody (js ''Session not found'')), b)
      | Some r \<Rightarrow>
          (case message of
             None \<Rightarrow> (Response 400 (ErrorBody (js ''Message is required'')), b)
           | Some m \<Rightarrow>
               if \<not> truthy m then (Response 400 (ErrorBody (js ''Message is required'')), b)
               else wait_for_response env r 0 0 (start_send r m b)))"

text \<open>\<open>DELETE /session/:sessionId\<close>.\<close>

definition close_session :: "jstring \<Rightarrow> bridge \<Rightarrow> http_response \<times> bridge" where
  "close_session sessionId b =
     (case map_of (activeSessions b) sessionId of
        None \<Rightarrow> (Response 404 (ErrorBody (js ''Session not found'')), b)
      | Some r \<Rightarrow>
          (Response 200 SessionClosed,
           (update_object r (\<lambda>s. s\<lparr>killed := True\<rparr>) b)
             \<lparr>activeSessions := AList.delete sessionId (activeSessions b)\<rparr>))"

text \<open>\<open>GET /sessions\<close>.\<close>

definition list_sessions :: "bridge \<Rightarrow> http_response" where
  "list_sessions b = Response 200 (Sessions (map (\<lambda>(sessionId, r). (sessionId, True)) (activeSessions b)))"

text \<open>
  For the statements about a \<open>Send\<close>: the bridge after the first \<open>k\<close> sleeps, and the
  time that has passed by then.
\<close>

fun after_sleeps :: "wait_env \<Rightarrow> nat \<Rightarrow> bridge \<Rightarrow> bridge" where
  "after_sleeps env 0 b = b"
| "after_sleeps env (Suc k) b = foldl apply_event (after_sleeps env k b) (arrivals env k)"

fun elapsed_after :: "wait_env \<Rightarrow> nat \<Rightarrow> nat" where
  "elapsed_after env 0 = 0"
| "elapsed_after env (Suc k) = elapsed_after env k + 100 + lateness env k"

text \<open>The \<open>data\<close> handler run on the chunks of a stream, one call for each chunk.\<close>

fun receive_chunks :: "bytes list \<Rightarrow> session \<Rightarrow> session" where
  "receive_chunks [] s = s"
| "receive_chunks (chunk # chunks) s = receive_chunks chunks (on_stdout_data chunk s)"

text \<open>A chunk that does not end inside a character.\<close>

definition ends_at_boundary :: "bytes \<Rightarrow> bool" where
  "ends_at_boundary data = (fst (utf8_feed Boundary data) = Boundary)"

text \<open>The session ids in the answer of \<open>GET /sessions\<close>.\<close>

fun listed_ids :: "http_response \<Rightarrow> jstring list" where
  "listed_ids (Response status (Sessions entries)) = map fst entries"
| "listed_ids _ = []"

section \<open>The polling query engine\<close>

text \<open>
  What a tool handler returns: the text of its reply. The texts of the replies with rows
  are built by templates that the model takes as given; the other two replies are named
  by their constructor.
\<close>

datatype tool_result =
    ReplyText jstring
  | SqlNoResults
  | ErrorText js_error

text \<open>
  What a polling loop did besides returning: the payload or URL of each request it
  issued, in order, and the milliseconds it waited between them.
\<close>

record 'r trace =
  requests :: "'r list"
  waited :: nat

definition no_trace :: "'r trace" where
  "no_trace = \<lparr>requests = [], waited = 0\<rparr>"

text \<open>The outcome of one attempt that did not fail: a reply, or one more attempt.\<close>

datatype 'r attempt = Finished tool_result | Continue 'r

subsection \<open>Table query\<close>

text \<open>
  The arguments of \<open>query_table\<close> after destructuring, typed as the tool's schema
  declares them, \<open>None\<close> for a missing optional one. The collection, the table name and
  the access token also go into the URL and the headers of the requests.
\<close>

record query_table_args =
  qt_network :: jstring
  qt_table_name :: jstring
  qt_filters :: "json option"
  qt_limit :: "json option"
  qt_offset :: "json option"
  qt_order_by :: "json option"

record payload =
  tableName :: jstring
  filters :: json
  pagination_limit :: json
  pagination_offset :: json
  order :: "json option"
  next_page_token :: "json option"

definition initial_payload :: "query_table_args \<Rightarrow> payload" where
  "initial_payload args =
     \<lparr>tableName = qt_table_name args,
      filters = (case qt_filters args of None \<Rightarrow> JObject [] | Some f \<Rightarrow> f),
      pagination_limit = (case qt_limit args of None \<Rightarrow> JNumber 100 0 | Some l \<Rightarrow> l),
      pagination_offset = (case qt_offset args of None \<Rightarrow> JNumber 0 0 | Some off \<Rightarrow> off),
      order = (if truthy_member (qt_order_by args) then qt_order_by args else None),
      next_page_token = None\<rparr>"

text \<open>
  The surroundings of one table query. \<open>http_post k p\<close> is the outcome of building and
  sending the \<open>k\<close>-th request with payload \<open>p\<close>: a rejection, or \<open>response.data\<close>.
  \<open>render_rows result\<close> is the reply text for a result with rows, or the \<open>TypeError\<close> of a
  conversion inside the template.
\<close>

record table_env =
  http_post :: "nat \<Rightarrow> payload \<Rightarrow> js_error + json"
  render_rows :: "json \<Rightarrow> js_error + jstring"

definition maxPolls :: nat where
  "maxPolls = 10"

definition pollInterval :: nat where
  "pollInterval = 2000"

text \<open>
  \<open>this.parseJsonLinesResponse(response.data)\<close>: \<open>response.data\<close> is the body text, or
  the value the HTTP client decoded from it, which has no \<open>trim\<close>.
\<close>

fun classify_response :: "json \<Rightarrow> js_error + json" where
  "classify_response (JString rawText) = parseJsonLinesResponse rawText"
| "classify_response _ = Inl TypeError"

text \<open>
  The payload of the next attempt after a response with a \<open>next_page_token\<close>:
  \<open>if (result.next_page_token !== 'empty_response_poll') payload.next_page_token =
  result.next_page_token\<close>.
\<close>

definition continue_payload :: "json \<Rightarrow> payload \<Rightarrow> payload" where
  "continue_payload result p =
     (if member result (js ''next_page_token'') \<noteq> Some (JString (js ''empty_response_poll''))
      then p\<lparr>next_page_token := member result (js ''next_page_token'')\<rparr>
      else p)"

text \<open>
  One attempt of the table query, after the request: a rejected request or a body that
  cannot be classified is the error of the attempt; rows end the loop with the reply; a
  continuation token asks for another attempt; anything else is an error.
\<close>

definition table_attempt :: "table_env \<Rightarrow> nat \<Rightarrow> payload \<Rightarrow> js_error + payload attempt" where
  "table_attempt env pollCount p =
     (case http_post env pollCount p of
        Inl e \<Rightarrow> Inl e
      | Inr data \<Rightarrow>
          (case classify_response data of
             Inl e \<Rightarrow> Inl e
           | Inr result \<Rightarrow>
               (case in_operator (js ''data'') result of
                  Inl e \<Rightarrow> Inl e
                | Inr has_data \<Rightarrow>
                    if has_data \<and> isArray (member result (js ''data''))
                    then (case render_rows env result of
                            Inl e \<Rightarrow> Inl e
                          | Inr reply \<Rightarrow> Inr (Finished (ReplyText reply)))
                    else (case in_operator (js ''next_page_token'') result of
                            Inl e \<Rightarrow> Inl e
                          | Inr has_token \<Rightarrow>
                              if has_token then Inr (Continue (continue_payload result p))
                              else Inl (UnexpectedResponseFormat result)))))"

text \<open>
  \<open>for (let pollCount = 0; pollCount < maxPolls; pollCount++)\<close> of \<open>queryTable\<close>. Any
  error of an attempt leaves the loop at once. The wait after a continuation is skipped
  on the last attempt.
\<close>

function queryTable_loop ::
  "table_env \<Rightarrow> nat \<Rightarrow> payload \<Rightarrow> payload trace \<Rightarrow> (js_error + tool_result) \<times> payload trace" where
  "queryTable_loop env pollCount p tr =
     (if pollCount < maxPolls
      then (case table_attempt env pollCount p of
              Inl e \<Rightarrow> (Inl e, tr\<lparr>requests := requests tr @ [p]\<rparr>)
            | Inr (Finished reply) \<Rightarrow> (Inr reply, tr\<lparr>requests := requests tr @ [p]\<rparr>)
            | Inr (Continue p') \<Rightarrow>
                queryTable_loop env (Suc pollCount) p'
                  (tr\<lparr>requests := requests tr @ [p],
                     waited := (if pollCount < maxPolls - 1 then waited tr + pollInterval
                                else waited tr)\<rparr>))
      else (Inl (QueryTimedOut maxPolls), tr))"
  by pat_completeness auto
termination
  by (relation "measure (\<lambda>(env, pollCount, p, tr). maxPolls - pollCount)") auto

text \<open>
  \<open>queryTable\<close>: the client is created outside the \<open>try\<close>; whatever the loop throws is
  thrown again as \<open>Failed to query table: ...\<close>.
\<close>

definition queryTable ::
  "table_env \<Rightarrow> query_table_args \<Rightarrow> (js_error + tool_result) \<times> payload trace" where
  "queryTable env args =
     (case getNetworkUrl (qt_network args) of
        Inl e \<Rightarrow> (Inl e, no_trace)
      | Inr baseURL \<Rightarrow>
          (case queryTable_loop env 0 (initial_payload args) no_trace of
             (Inl e, tr) \<Rightarrow> (Inl (FailedToQueryTable e), tr)
           | (Inr reply, tr) \<Rightarrow> (Inr reply, tr)))"

subsection \<open>SQL search\<close>

text \<open>
  A response of the SQL endpoints as the handler reads it: the \<open>content-type\<close> header,
  \<open>None\<close> when the response has none, and \<open>response.data\<close>, which is the body text or
  the value that the HTTP client has decoded from it.
\<close>

record response =
  content_type :: "jstring option"
  response_data :: json

text \<open>
  \<open>response.headers['content-type'] &&
  response.headers['content-type'].startsWith('application/json')\<close>.
\<close>

definition is_json_content :: "jstring option \<Rightarrow> bool" where
  "is_json_content header =
     (case header of
        None \<Rightarrow> False
      | Some t \<Rightarrow> t \<noteq> [] \<and> startsWith t (js ''application/json''))"

text \<open>
  The surroundings of one SQL search: the outcome of the request that submits the
  query (\<open>http_submit\<close>), \<open>http_get k url\<close>, the outcome of the \<open>k\<close>-th poll at \<open>url\<close>,
  \<open>formatSqlResults\<close>, the reply text for a result with rows or the \<open>TypeError\<close> of a
  conversion inside it, and \<open>number_to_string\<close>, the runtime's text of a number.
\<close>

record sql_env =
  http_submit :: "js_error + response"
  http_get :: "nat \<Rightarrow> json \<Rightarrow> js_error + response"
  formatSqlResults :: "json \<Rightarrow> js_error + jstring"
  number_to_string :: "int \<Rightarrow> int \<Rightarrow> jstring"

text \<open>
  The result that the handler takes from a response. With a JSON content type it is
  \<open>response.data\<close> as it is. Otherwise it is \<open>JSON.parse(response.data)\<close>; when that call
  throws, the \<open>catch\<close> builds its message from \<open>response.data.substring(0, 200)\<close>, which
  is itself a \<open>TypeError\<close> unless \<open>response.data\<close> is a string.
\<close>

definition decode_response :: "sql_env \<Rightarrow> response \<Rightarrow> js_error + json" where
  "decode_response env r =
     (if is_json_content (content_type r) then Inr (response_data r)
      else (case JSON_parse_value (number_to_string env) (response_data r) of
              Some v \<Rightarrow> Inr v
            | None \<Rightarrow>
                (case response_data r of
                   JString s \<Rightarrow> Inl (InvalidJsonResponse (take 200 s))
                 | _ \<Rightarrow> Inl TypeError)))"

text \<open>
  \<open>if (result.errors && result.errors.length > 0) throw new Error(`SQL query error:
  ${result.errors[0].details || 'Unknown error'}`)\<close>. Reading a member of \<open>null\<close>, or
  \<open>details\<close> of a first error that is \<open>undefined\<close> or \<open>null\<close>, raises a \<open>TypeError\<close>, and
  so does a conversion that throws.
\<close>

definition error_details :: "json \<Rightarrow> js_error" where
  "error_details errors =
     (case first_element errors of
        None \<Rightarrow> TypeError
      | Some first \<Rightarrow>
          if first = JNull then TypeError
          else (case member first (js ''details'') of
                  None \<Rightarrow> SqlQueryError (JString (js ''Unknown error''))
                | Some details \<Rightarrow>
                    if \<not> truthy details then SqlQueryError (JString (js ''Unknown error''))
                    else if conversion_throws details then TypeError
                    else SqlQueryError details))"

definition check_errors :: "json \<Rightarrow> js_error + unit" where
  "check_errors result =
     (if result = JNull then Inl TypeError
      else (case nonempty_member (member result (js ''errors'')) of
              Inl e \<Rightarrow> Inl e
            | Inr has_errors \<Rightarrow>
                if has_errors then Inl (error_details (the (member result (js ''errors''))))
                else Inr ()))"

text \<open>\<open>result.pagination?.next_page_url\<close>, for a result that is not \<open>null\<close>.\<close>

definition next_page_url :: "json \<Rightarrow> json option" where
  "next_page_url result =
     (case member result (js ''pagination'') of
        None \<Rightarrow> None
      | Some pagination \<Rightarrow>
          if pagination = JNull then None else member pagination (js ''next_page_url''))"

text \<open>
  The body of the \<open>try\<close> of one poll, after the wait: any failure is the error of the
  attempt; rows, or no rows and no next page, end the loop with a reply; a next page URL
  asks for another attempt at that URL.
\<close>

definition sql_attempt :: "sql_env \<Rightarrow> nat \<Rightarrow> json \<Rightarrow> js_error + json attempt" where
  "sql_attempt env pollCount nextPageUrl =
     (case http_get env pollCount nextPageUrl of
        Inl e \<Rightarrow> Inl e
      | Inr r \<Rightarrow>
          (case decode_response env r of
             Inl e \<Rightarrow> Inl e
           | Inr pollResult \<Rightarrow>
               (case check_errors pollResult of
                  Inl e \<Rightarrow> Inl e
                | Inr ok \<Rightarrow>
                    (case nonempty_member (member pollResult (js ''data'')) of
                       Inl e \<Rightarrow> Inl e
                     | Inr has_rows \<Rightarrow>
                         if has_rows
                         then (case formatSqlResults env pollResult of
                                 Inl e \<Rightarrow> Inl e
                               | Inr reply \<Rightarrow> Inr (Finished (ReplyText reply)))
                         else if empty_member (member pollResult (js ''data''))
                                 \<and> \<not> truthy_member (next_page_url pollResult)
                         then Inr (Finished SqlNoResults)
                         else if truthy_member (next_page_url pollResult)
                         then Inr (Continue (the (next_page_url pollResult)))
                         else Inr (Finished SqlNoResults)))))"

text \<open>
  \<open>pollSqlResults\<close>. \<open>max_polls\<close> is an integer, as the tool's schema declares it;
  \<open>poll_interval\<close> is the delay of each wait in milliseconds. Every attempt waits first.
  An error of an attempt is dropped unless the attempt is the last.
\<close>

function pollSqlResults ::
  "sql_env \<Rightarrow> int \<Rightarrow> nat \<Rightarrow> nat \<Rightarrow> json \<Rightarrow> json trace \<Rightarrow> (js_error + tool_result) \<times> json trace" where
  "pollSqlResults env max_polls poll_interval pollCount nextPageUrl tr =
     (if int pollCount < max_polls
      then (case sql_attempt env pollCount nextPageUrl of
              Inl e \<Rightarrow>
                if int pollCount < max_polls - 1
                then pollSqlResults env max_polls poll_interval (Suc pollCount) nextPageUrl
                       (tr\<lparr>requests := requests tr @ [nextPageUrl],
                          waited := waited tr + poll_interval\<rparr>)
                else (Inl (PollingFailed e),
                      tr\<lparr>requests := requests tr @ [nextPageUrl],
                         waited := waited tr + poll_interval\<rparr>)
            | Inr (Finished reply) \<Rightarrow>
                (Inr reply,
                 tr\<lparr>requests := requests tr @ [nextPageUrl], waited := waited tr + poll_interval\<rparr>)
            | Inr (Continue url) \<Rightarrow>
                pollSqlResults env max_polls poll_interval (Suc pollCount) url
                  (tr\<lparr>requests := requests tr @ [nextPageUrl],
                     waited := waited tr + poll_interval\<rparr>))
      else (Inl (SqlQueryTimedOut max_polls poll_interval), tr))"
  by pat_completeness auto
termination
  by (relation "measure (\<lambda>(env, max_polls, poll_interval, pollCount, url, tr).
                           nat (max_polls - int pollCount))") auto

text \<open>
  The arguments of \<open>sql_search\<close> after destructuring, typed as the tool's schema
  declares them, the defaults filled in (\<open>max_polls = 10\<close>, \<open>poll_interval = 2.0\<close>
  seconds).
\<close>

record sql_search_args =
  sq_network :: jstring
  sq_max_polls :: int
  sq_poll_interval :: nat

text \<open>
  \<open>sqlSearch\<close>: the first request submits the query. Its response is read as a poll's
  is, except that the loop is entered when it names a next page. Whatever the \<open>try\<close>
  throws is thrown again as \<open>Failed to execute SQL query: ...\<close>.
\<close>

definition sql_first :: "sql_env \<Rightarrow> js_error + json attempt" where
  "sql_first env =
     (case http_submit env of
        Inl e \<Rightarrow> Inl e
      | Inr r \<Rightarrow>
          (case decode_response env r of
             Inl e \<Rightarrow> Inl e
           | Inr result \<Rightarrow>
               (case check_errors result of
                  Inl e \<Rightarrow> Inl e
                | Inr ok \<Rightarrow>
                    (case nonempty_member (member result (js ''data'')) of
                       Inl e \<Rightarrow> Inl e
                     | Inr has_rows \<Rightarrow>
                         if has_rows
                         then (case formatSqlResults env result of
                                 Inl e \<Rightarrow> Inl e
                               | Inr reply \<Rightarrow> Inr (Finished (ReplyText reply)))
                         else if \<not> truthy_member (next_page_url result)
                         then Inr (Finished SqlNoResults)
                         else Inr (Continue (the (next_page_url result)))))))"

definition sqlSearch ::
  "sql_env \<Rightarrow> sql_search_args \<Rightarrow> (js_error + tool_result) \<times> json trace" where
  "sqlSearch env args =
     (case getNetworkUrl (sq_network args) of
        Inl e \<Rightarrow> (Inl e, no_trace)
      | Inr baseURL \<Rightarrow>
          (case sql_first env of
             Inl e \<Rightarrow> (Inl (FailedToExecuteSqlQuery e), no_trace)
           | Inr (Finished reply) \<Rightarrow> (Inr reply, no_trace)
           | Inr (Continue url) \<Rightarrow>
               (case pollSqlResults env (sq_max_polls args) (sq_poll_interval args) 0 url no_trace of
                  (Inl e, tr) \<Rightarrow> (Inl (FailedToExecuteSqlQuery e), tr)
                | (Inr reply, tr) \<Rightarrow> (Inr reply, tr))))"

text \<open>
  Two responses for the examples: a body that the client has decoded, under a JSON
  content type, and a body that is text, under another content type. No example
  converts a number to a string, and \<open>number_to_string\<close> is the constant function there.
\<close>

definition json_response :: "json \<Rightarrow> response" where
  "json_response v = \<lparr>content_type = Some (js ''application/json''), response_data = v\<rparr>"

definition text_response :: "jstring \<Rightarrow> response" where
  "text_response s = \<lparr>content_type = Some (js ''text/html''), response_data = JString s\<rparr>"

subsection \<open>Time\<close>



section \<open>The tool dispatch layer\<close>

text \<open>
  The handler of \<open>tools/call\<close>. The six methods it awaits are taken as they are: each
  maps the arguments to the reply it returns or the error it throws. The \<open>switch\<close> is on
  the tool's name; the \<open>catch\<close> turns every error into a reply whose text is
  \<open>Error: ...\<close>. \<open>Inl\<close> of the handler's own result would be an error that leaves the
  handler.
\<close>

record 'a tool_handlers =
  listCollections :: "'a \<Rightarrow> js_error + tool_result"
  listTables :: "'a \<Rightarrow> js_error + tool_result"
  getSchemaFields :: "'a \<Rightarrow> js_error + tool_result"
  queryTable_handler :: "'a \<Rightarrow> js_error + tool_result"
  countRows :: "'a \<Rightarrow> js_error + tool_result"
  sqlSearch_handler :: "'a \<Rightarrow> js_error + tool_result"

definition switch_tool :: "'a tool_handlers \<Rightarrow> jstring \<Rightarrow> 'a \<Rightarrow> js_error + tool_result" where
  "switch_tool handlers name args =
     (if name = js ''list_collections'' then listCollections handlers args
      else if name = js ''list_tables'' then listTables handlers args
      else if name = js ''get_schema_fields'' then getSchemaFields handlers args
      else if name = js ''query_table'' then queryTable_handler handlers args
      else if name = js ''count_rows'' then countRows handlers args
      else if name = js ''sql_search'' then sqlSearch_handler handlers args
      else Inl (UnknownTool name))"

definition call_tool :: "'a tool_handlers \<Rightarrow> jstring \<Rightarrow> 'a \<Rightarrow> js_error + tool_result" where
  "call_tool handlers name args =
     (case switch_tool handlers name args of
        Inr reply \<Rightarrow> Inr reply
      | Inl error \<Rightarrow> Inr (ErrorText error))"

definition known_tools :: "jstring list" where
  "known_tools =
     [js ''list_collections'', js ''list_tables'', js ''get_schema_fields'',
      js ''query_table'', js ''count_rows'', js ''sql_search'']"

section \<open>Verified properties\<close>

subsection \<open>Lines of a text\<close>

lemma split_from_shape:
  "split_from cur s = (rev cur @ hd (split_from [] s)) # tl (split_from [] s)"
proof (induction s arbitrary: cur)
  case Nil
  then show ?case by simp
next
  case (Cons c s)
  show ?case
  proof (cases "c = 0x0A")
    case True
    then show ?thesis by simp
  next
    case False
    have "split_from (c # cur) s = (rev (c # cur) @ hd (split_from [] s)) # tl (split_from [] s)"
      by (rule Cons.IH)
    moreover have "split_from [c] s = (rev [c] @ hd (split_from [] s)) # tl (split_from [] s)"
      by (rule Cons.IH)
    ultimately show ?thesis using False by simp
  qed
qed

lemma split_nl_Nil: "split_nl [] = [[]]"
  by (simp add: split_nl_def)

lemma split_nl_Cons:
  "split_nl (c # s) =
     (if c = 0x0A then [] # split_nl s else (c # hd (split_nl s)) # tl (split_nl s))"
  using split_from_shape [of "[c]" s] by (simp add: split_nl_def)

lemma split_nl_nonempty: "split_nl s \<noteq> []"
  by (cases s) (simp_all add: split_nl_Nil split_nl_Cons)

lemma split_nl_snoc:
  "split_nl (s @ [c]) =
     (if c = 0x0A then split_nl s @ [[]]
      else butlast (split_nl s) @ [last (split_nl s) @ [c]])"
proof (induction s)
  case Nil
  then show ?case by (simp add: split_nl_Nil split_nl_Cons)
next
  case (Cons a s)
  obtain l ls where sp: "split_nl s = l # ls"
    using split_nl_nonempty by (cases "split_nl s") auto
  show ?case
  proof (cases "c = 0x0A")
    case True
    then show ?thesis using Cons sp by (simp add: split_nl_Nil split_nl_Cons)
  next
    case False
    then show ?thesis using Cons sp split_nl_nonempty [of s]
      by (cases ls) (auto simp: split_nl_Nil split_nl_Cons)
  qed
qed

lemma trim_eq_Nil_iff: "trim s = [] \<longleftrightarrow> (\<forall>c \<in> set s. is_js_whitespace c)"
proof
  assume "trim s = []"
  then have "dropWhile is_js_whitespace (rev (dropWhile is_js_whitespace s)) = []"
    by (simp add: trim_def)
  then have all: "\<forall>c \<in> set (dropWhile is_js_whitespace s). is_js_whitespace c"
    by (simp add: dropWhile_eq_Nil_conv)
  have "dropWhile is_js_whitespace s = []"
  proof (cases "dropWhile is_js_whitespace s")
    case Nil
    then show ?thesis .
  next
    case (Cons a list)
    then have "\<not> is_js_whitespace a" by (metis hd_dropWhile list.distinct(1) list.sel(1))
    then show ?thesis using all Cons by simp
  qed
  then show "\<forall>c \<in> set s. is_js_whitespace c" by (simp add: dropWhile_eq_Nil_conv)
next
  assume "\<forall>c \<in> set s. is_js_whitespace c"
  then have d: "dropWhile is_js_whitespace s = []" by simp
  show "trim s = []" unfolding trim_def d by simp
qed

lemma trim_ws_Cons: "is_js_whitespace c \<Longrightarrow> trim (c # s) = trim s"
  by (simp add: trim_def)

lemma trim_ws_snoc:
  assumes "is_js_whitespace c"
  shows "trim (s @ [c]) = trim s"
proof (cases "\<forall>x \<in> set s. is_js_whitespace x")
  case True
  then have "trim (s @ [c]) = []" and "trim s = []"
    using assms by (simp_all add: trim_eq_Nil_iff)
  then show ?thesis by simp
next
  case False
  then obtain x where "x \<in> set s" and "\<not> is_js_whitespace x" by blast
  then have "dropWhile is_js_whitespace (s @ [c]) = dropWhile is_js_whitespace s @ [c]"
    by (rule dropWhile_append1)
  then show ?thesis using assms by (simp add: trim_def)
qed

lemma nl_is_whitespace: "is_js_whitespace 0x0A"
  by (simp add: is_js_whitespace_def)

lemma lines_ws_Cons:
  assumes "is_js_whitespace c"
  shows "filter (\<lambda>line. line \<noteq> []) (map trim (split_nl (c # s)))
         = filter (\<lambda>line. line \<noteq> []) (map trim (split_nl s))"
proof (cases "c = 0x0A")
  case True
  then show ?thesis by (simp add: split_nl_Cons trim_def)
next
  case False
  obtain l ls where sp: "split_nl s = l # ls"
    using split_nl_nonempty by (cases "split_nl s") auto
  show ?thesis using False sp assms by (simp add: split_nl_Nil split_nl_Cons trim_ws_Cons)
qed

lemma lines_ws_snoc:
  assumes "is_js_whitespace c"
  shows "filter (\<lambda>line. line \<noteq> []) (map trim (split_nl (s @ [c])))
         = filter (\<lambda>line. line \<noteq> []) (map trim (split_nl s))"
proof (cases "c = 0x0A")
  case True
  then show ?thesis by (simp add: split_nl_snoc trim_def)
next
  case False
  have "split_nl s = butlast (split_nl s) @ [last (split_nl s)]"
    using split_nl_nonempty by simp
  then have "map trim (split_nl s) = map trim (butlast (split_nl s)) @ [trim (last (split_nl s))]"
    by (metis list.simps(8) list.simps(9) map_append)
  then show ?thesis using False assms by (simp add: split_nl_snoc trim_ws_snoc)
qed

lemma lines_dropWhile:
  "filter (\<lambda>line. line \<noteq> []) (map trim (split_nl (dropWhile is_js_whitespace s)))
   = filter (\<lambda>line. line \<noteq> []) (map trim (split_nl s))"
proof (induction s)
  case Nil
  then show ?case by simp
next
  case (Cons c s)
  show ?case
  proof (cases "is_js_whitespace c")
    case True
    then show ?thesis using Cons lines_ws_Cons [OF True, of s] by simp
  next
    case False
    then show ?thesis by simp
  qed
qed

lemma lines_dropWhile_end:
  "filter (\<lambda>line. line \<noteq> []) (map trim (split_nl (rev (dropWhile is_js_whitespace (rev s)))))
   = filter (\<lambda>line. line \<noteq> []) (map trim (split_nl s))"
proof (induction s rule: rev_induct)
  case Nil
  then show ?case by simp
next
  case (snoc c s)
  show ?case
  proof (cases "is_js_whitespace c")
    case True
    then show ?thesis using snoc lines_ws_snoc [OF True, of s] by simp
  next
    case False
    then show ?thesis by simp
  qed
qed

lemma response_lines_eq_spec_lines: "response_lines body = spec_lines body"
proof -
  have "trim body = rev (dropWhile is_js_whitespace (rev (dropWhile is_js_whitespace body)))"
    by (simp add: trim_def)
  then show ?thesis
    unfolding response_lines_def spec_lines_def
    by (simp only: lines_dropWhile_end lines_dropWhile)
qed

lemma spec_lines_blank: "trim body = [] \<Longrightarrow> spec_lines body = []"
proof -
  assume "trim body = []"
  moreover have "trim [] = []" by (simp add: trim_def)
  ultimately have "response_lines body = []" by (simp add: response_lines_def split_nl_Nil)
  then show ?thesis by (simp add: response_lines_eq_spec_lines)
qed

lemma trim_split_hd:
  assumes "s \<noteq> []" and "\<not> is_js_whitespace (hd s)"
  shows "trim (hd (split_nl s)) \<noteq> []"
proof -
  obtain c cs where s: "s = c # cs" using assms(1) by (cases s) auto
  then have c: "\<not> is_js_whitespace c" using assms(2) by simp
  then have "c \<noteq> 0x0A" using nl_is_whitespace by auto
  then have "hd (split_nl s) = c # hd (split_nl cs)" using s by (simp add: split_nl_Nil split_nl_Cons)
  then show ?thesis using c by (auto simp: trim_eq_Nil_iff)
qed

lemma response_lines_nonempty:
  assumes "trim rawText \<noteq> []"
  shows "response_lines rawText \<noteq> []"
proof -
  let ?t = "trim rawText"
  have "\<not> is_js_whitespace (hd ?t)"
  proof -
    have ne: "dropWhile is_js_whitespace rawText \<noteq> []"
    proof
      assume d: "dropWhile is_js_whitespace rawText = []"
      have "trim rawText = []" unfolding trim_def d by simp
      with assms show False by simp
    qed
    then have nw: "\<not> is_js_whitespace (hd (dropWhile is_js_whitespace rawText))"
      by (rule hd_dropWhile)
    obtain a r where d: "dropWhile is_js_whitespace rawText = a # r"
      using ne by (cases "dropWhile is_js_whitespace rawText") auto
    then have a: "\<not> is_js_whitespace a" using nw by simp
    have "rev (a # r) = rev r @ [a]" by simp
    have "dropWhile is_js_whitespace (rev r @ [a]) = dropWhile is_js_whitespace (rev r) @ [a] \<or> dropWhile is_js_whitespace (rev r @ [a]) = [a]"
      using a by (metis dropWhile_append1 dropWhile_append2 dropWhile.simps append_Nil)
    then have "hd (rev (dropWhile is_js_whitespace (rev r @ [a]))) = a" by auto
    moreover have "trim rawText = rev (dropWhile is_js_whitespace (rev r @ [a]))"
      unfolding trim_def d by simp
    ultimately show ?thesis using a by simp
  qed
  then have "trim (hd (split_nl ?t)) \<noteq> []" using assms trim_split_hd by blast
  moreover have "hd (split_nl ?t) \<in> set (split_nl ?t)" using split_nl_nonempty by simp
  ultimately have "trim (hd (split_nl ?t)) \<in> set (filter (\<lambda>line. line \<noteq> []) (map trim (split_nl ?t)))"
    by auto
  then show ?thesis unfolding response_lines_def by (metis empty_iff list.set(1))
qed

subsection \<open>The response classifier against its specification\<close>

lemma scan_for_find:
  assumes "\<forall>v \<in> set xs. truthy v \<longrightarrow> is_object v"
  shows "scan_for key xs = Inr (find (has_field key) xs)"
  using assms
proof (induction xs)
  case Nil
  then show ?case by simp
next
  case (Cons x xs)
  then have ih: "scan_for key xs = Inr (find (has_field key) xs)" by simp
  from Cons.prems have x: "truthy x \<longrightarrow> is_object x" by simp
  show ?case using ih x by (cases x) (auto split: bool.splits)
qed

lemma find_append:
  "find P (xs @ ys) = (case find P xs of None \<Rightarrow> find P ys | Some x \<Rightarrow> Some x)"
  by (induction xs) auto

lemma find_rev_filter:
  "find P (rev xs) = (if filter P xs = [] then None else Some (last (filter P xs)))"
  by (induction xs) (auto simp: find_append)

lemma keys_iff_some_field:
  assumes "truthy v \<longrightarrow> is_object v"
  shows "(truthy v \<and> has_keys v) = has_some_field v"
  using assms by (cases v) auto

lemma classify_matches_spec:
  assumes H: "\<forall>v \<in> set (List.map_filter JSON_parse (response_lines body)). truthy v \<longrightarrow> is_object v"
    and ne: "trim body \<noteq> []"
  shows "parseJsonLinesResponse body = spec_classify body"
proof -
  let ?objs = "List.map_filter JSON_parse (response_lines body)"
  have lines: "response_lines body \<noteq> []" using ne by (rule response_lines_nonempty)
  have sl: "spec_lines body = response_lines body" by (simp add: response_lines_eq_spec_lines)
  have Hr: "\<forall>v \<in> set (rev ?objs). truthy v \<longrightarrow> is_object v" using H by simp
  have s1: "scan_for (js ''data'') (rev ?objs) = Inr (find (has_field (js ''data'')) (rev ?objs))"
    using Hr by (rule scan_for_find)
  have s2: "scan_for (js ''next_page_token'') (rev ?objs)
              = Inr (find (has_field (js ''next_page_token'')) (rev ?objs))"
    using Hr by (rule scan_for_find)
  have f: "filter (\<lambda>obj. truthy obj \<and> has_keys obj) ?objs = filter has_some_field ?objs"
    using H by (intro filter_cong) (auto simp: keys_iff_some_field)
  have s3: "find has_some_field (rev ?objs)
              = (if filter has_some_field ?objs = [] then None
                 else Some (last (filter has_some_field ?objs)))"
    by (rule find_rev_filter)
  show ?thesis
    unfolding parseJsonLinesResponse_def spec_classify_def Let_def sl s1 s2 f s3
    using ne lines by (simp split: option.splits)
qed

lemma scan_for_skip:
  assumes "\<forall>p \<in> set xs. (truthy p \<longrightarrow> is_object p) \<and> \<not> has_field key p"
  shows "scan_for key (xs @ ys) = scan_for key ys"
  using assms
proof (induction xs)
  case Nil
  then show ?case by simp
next
  case (Cons x xs)
  then have ih: "scan_for key (xs @ ys) = scan_for key ys" by simp
  from Cons.prems have x: "truthy x \<longrightarrow> is_object x" "\<not> has_field key x" by simp_all
  show ?case using ih x by (cases x) (auto split: bool.splits)
qed

lemma scan_for_hit:
  assumes "has_field key d"
  shows "scan_for key (d # ys) = Inr (Some d)"
  using assms by (cases d) auto

lemma blank_has_no_lines:
  assumes "trim body = []"
  shows "response_lines body = []"
proof -
  have "trim [] = []" by (simp add: trim_def)
  then show ?thesis using assms by (simp add: response_lines_def split_nl_Nil)
qed

lemma classify_last_data:
  assumes objs: "List.map_filter JSON_parse (response_lines body) = pre @ d # post"
    and d: "has_field (js ''data'') d"
    and post: "\<forall>p \<in> set post. (truthy p \<longrightarrow> is_object p) \<and> \<not> has_field (js ''data'') p"
  shows "parseJsonLinesResponse body = Inr d"
proof -
  have ne: "trim body \<noteq> []"
  proof
    assume "trim body = []"
    then have "response_lines body = []" by (rule blank_has_no_lines)
    then show False using objs by (simp add: List.map_filter_simps)
  qed
  then have lines: "response_lines body \<noteq> []" by (rule response_lines_nonempty)
  have "\<forall>p \<in> set (rev post). (truthy p \<longrightarrow> is_object p) \<and> \<not> has_field (js ''data'') p"
    using post by simp
  then have skip: "scan_for (js ''data'') (rev post @ d # rev pre) = scan_for (js ''data'') (d # rev pre)"
    by (rule scan_for_skip)
  have hit: "scan_for (js ''data'') (d # rev pre) = Inr (Some d)"
    using d by (rule scan_for_hit)
  have "rev (pre @ d # post) = rev post @ d # rev pre" by simp
  then have "scan_for (js ''data'') (rev (pre @ d # post)) = Inr (Some d)"
    using skip hit by (simp only:)
  then show ?thesis
    unfolding parseJsonLinesResponse_def Let_def objs using ne lines by simp
qed

lemma map_filter_const:
  assumes "\<forall>l \<in> set ls. f l = Some c"
  shows "List.map_filter f ls = map (\<lambda>l. c) ls"
  using assms by (induction ls) (auto simp: List.map_filter_simps)

lemma scan_for_empty_objects:
  assumes "\<forall>v \<in> set xs. v = JObject []"
  shows "scan_for key xs = Inr None"
  using assms by (induction xs) auto

lemma classify_all_empty_objects:
  assumes lines: "response_lines body \<noteq> []"
    and all: "\<forall>l \<in> set (response_lines body). JSON_parse l = Some (JObject [])"
  shows "parseJsonLinesResponse body = Inl NoDataOrNextPageToken"
proof -
  let ?objs = "List.map_filter JSON_parse (response_lines body)"
  have ne: "trim body \<noteq> []" using lines blank_has_no_lines by blast
  have objs: "?objs = map (\<lambda>l. JObject []) (response_lines body)"
    using all by (rule map_filter_const)
  have nonempty: "?objs \<noteq> []" unfolding objs using lines by simp
  have each: "\<forall>v \<in> set (rev ?objs). v = JObject []" unfolding objs by auto
  have s1: "scan_for (js ''data'') (rev ?objs) = Inr None"
    using each by (rule scan_for_empty_objects)
  have s2: "scan_for (js ''next_page_token'') (rev ?objs) = Inr None"
    using each by (rule scan_for_empty_objects)
  have f: "filter (\<lambda>obj. truthy obj \<and> has_keys obj) ?objs = []"
    unfolding objs by (induction "response_lines body") auto
  have "parseJsonLinesResponse body =
          (if ?objs = [] then Inl NoValidJsonObjectsFound else Inl NoDataOrNextPageToken)"
    unfolding parseJsonLinesResponse_def Let_def s1 s2 f
    using ne lines by simp
  then show ?thesis using nonempty by (simp only: if_False)
qed

text \<open>The definitions that evaluate the model on a concrete text.\<close>

lemmas js_eval =
  js_def trim_def is_js_whitespace_def split_nl_def response_lines_def spec_lines_def
  JSON_parse_def start_step_def end_number_def number_of_def new_number_def
  is_json_whitespace_def is_digit_def is_exp_letter_def hex_value_def escape_step_def
  List.map_filter_simps rounds_to_zero_def
  parseJsonLinesResponse_def spec_classify_def

text \<open>
  C1, as the code has it. Where no line of the body parses to a truthy primitive (a
  non-zero number, a non-empty string, \<open>true\<close>), \<open>parseJsonLinesResponse\<close> returns what
  the reference algorithm returns, except that a blank body fails with
  \<open>Empty response received\<close>. Whatever stands before it, the last parsed object with a
  \<open>data\<close> field is returned when only objects, arrays and falsy values without
  \<open>data\<close> follow it; and a body whose lines all parse to \<open>{}\<close> fails with
  \<open>No data or next_page_token found in response\<close>.
\<close>

theorem parseJsonLinesResponse_refines_spec:
  "((\<forall>v \<in> set (List.map_filter JSON_parse (response_lines body)). truthy v \<longrightarrow> is_object v)
      \<longrightarrow> parseJsonLinesResponse body
            = (if trim body = [] then Inl EmptyResponseReceived else spec_classify body))
   \<and> (List.map_filter JSON_parse (response_lines body) = pre @ d # post
        \<and> has_field (js ''data'') d
        \<and> (\<forall>p \<in> set post. (truthy p \<longrightarrow> is_object p) \<and> \<not> has_field (js ''data'') p)
      \<longrightarrow> parseJsonLinesResponse body = Inr d)
   \<and> (response_lines body \<noteq> []
        \<and> (\<forall>l \<in> set (response_lines body). JSON_parse l = Some (JObject []))
      \<longrightarrow> parseJsonLinesResponse body = Inl NoDataOrNextPageToken)"
proof (intro conjI impI)
  assume H: "\<forall>v \<in> set (List.map_filter JSON_parse (response_lines body)). truthy v \<longrightarrow> is_object v"
  show "parseJsonLinesResponse body
          = (if trim body = [] then Inl EmptyResponseReceived else spec_classify body)"
  proof (cases "trim body = []")
    case True
    then show ?thesis by (simp add: parseJsonLinesResponse_def)
  next
    case False
    then show ?thesis using classify_matches_spec [OF H False] by simp
  qed
next
  assume "List.map_filter JSON_parse (response_lines body) = pre @ d # post
            \<and> has_field (js ''data'') d
            \<and> (\<forall>p \<in> set post. (truthy p \<longrightarrow> is_object p) \<and> \<not> has_field (js ''data'') p)"
  then show "parseJsonLinesResponse body = Inr d"
    using classify_last_data by blast
next
  assume "response_lines body \<noteq> []
            \<and> (\<forall>l \<in> set (response_lines body). JSON_parse l = Some (JObject []))"
  then show "parseJsonLinesResponse body = Inl NoDataOrNextPageToken"
    using classify_all_empty_objects by blast
qed

text \<open>
  A body of four lines: a continuation token, a malformed line, the data rows, and a
  later continuation token. The data rows are returned, as the reference algorithm
  says. A body of two \<open>{}\<close> lines fails.
\<close>

theorem parseJsonLinesResponse_refines_spec_witness:
  \<open>parseJsonLinesResponse
      (js ''{"next_page_token":"abc"}\<newline>not json\<newline>{"data":[{"x":1}]}\<newline>{"next_page_token":"def"}'')
     = spec_classify
      (js ''{"next_page_token":"abc"}\<newline>not json\<newline>{"data":[{"x":1}]}\<newline>{"next_page_token":"def"}'')
   \<and> parseJsonLinesResponse
      (js ''{"next_page_token":"abc"}\<newline>not json\<newline>{"data":[{"x":1}]}\<newline>{"next_page_token":"def"}'')
     = Inr (JObject [(js ''data'', JArray [JObject [(js ''x'', JNumber 1 0)]])])
   \<and> parseJsonLinesResponse (js ''{}\<newline> {} \<newline>'') = Inl NoDataOrNextPageToken\<close>
proof -
  let ?b = \<open>js ''{"next_page_token":"abc"}\<newline>not json\<newline>{"data":[{"x":1}]}\<newline>{"next_page_token":"def"}''\<close>
  let ?pre = "[JObject [(js ''next_page_token'', JString (js ''abc''))]]"
  let ?d = "JObject [(js ''data'', JArray [JObject [(js ''x'', JNumber 1 0)]])]"
  let ?post = "[JObject [(js ''next_page_token'', JString (js ''def''))]]"
  let ?e = \<open>js ''{}\<newline> {} \<newline>''\<close>
  have p: "List.map_filter JSON_parse (response_lines ?b) = ?pre @ ?d # ?post"
    by (simp add: js_eval)
  have h1: "\<forall>v \<in> set (List.map_filter JSON_parse (response_lines ?b)). truthy v \<longrightarrow> is_object v"
    unfolding p by simp
  have h2: "has_field (js ''data'') ?d
              \<and> (\<forall>p \<in> set ?post. (truthy p \<longrightarrow> is_object p) \<and> \<not> has_field (js ''data'') p)"
    by (simp add: js_def)
  have ne: "trim ?b \<noteq> []" by (simp add: js_eval)
  have e: "response_lines ?e = [js ''{}'', js ''{}'']" by (simp add: js_eval)
  have h3: "response_lines ?e \<noteq> []
              \<and> (\<forall>l \<in> set (response_lines ?e). JSON_parse l = Some (JObject []))"
    unfolding e by (simp add: js_eval)
  note at_b = parseJsonLinesResponse_refines_spec [of ?b ?pre ?d ?post]
  have "parseJsonLinesResponse ?b
          = (if trim ?b = [] then Inl EmptyResponseReceived else spec_classify ?b)"
    using at_b h1 by blast
  then have "parseJsonLinesResponse ?b = spec_classify ?b"
    using ne by (simp only: if_False)
  moreover have "parseJsonLinesResponse ?b = Inr ?d"
    using at_b p h2 by blast
  moreover from parseJsonLinesResponse_refines_spec [of ?e "[]" JNull "[]"] h3
  have "parseJsonLinesResponse ?e = Inl NoDataOrNextPageToken" by blast
  ultimately show ?thesis by (intro conjI)
qed

text \<open>
  The claim as stated fails on a body with a line that parses to a truthy primitive
  after the data rows: the reference algorithm returns the rows, the code raises a
  \<open>TypeError\<close>. It also fails on the empty body, where the code's message is
  \<open>Empty response received\<close>.
\<close>

theorem parseJsonLinesResponse_counterexample:
  \<open>parseJsonLinesResponse (js ''{"data":[]}\<newline>7'') = Inl TypeError
   \<and> spec_classify (js ''{"data":[]}\<newline>7'') = Inr (JObject [(js ''data'', JArray [])])
   \<and> parseJsonLinesResponse (js '''') = Inl EmptyResponseReceived
   \<and> spec_classify (js '''') = Inl NoValidJsonObjectsFound\<close>
  by (simp add: js_eval)

subsection \<open>Framing of a worker's output\<close>

lemma lex_blank:
  assumes "\<forall>c \<in> set s. is_js_whitespace c"
  shows "lex LStart s = None \<or> lex LStart s = Some []"
  using assms
proof (induction s)
  case Nil
  then show ?case by simp
next
  case (Cons c s)
  then have ih: "lex LStart s = None \<or> lex LStart s = Some []" by simp
  from Cons.prems have c: "is_js_whitespace c" by simp
  show ?case
  proof (cases "is_json_whitespace c")
    case True
    then show ?thesis using ih by (auto simp: start_step_def)
  next
    case False
    then have "start_step c = None"
      using c by (auto simp: start_step_def is_js_whitespace_def is_digit_def)
    then show ?thesis by simp
  qed
qed

lemma blank_not_json:
  assumes "trim line = []"
  shows "JSON_parse line = None"
proof -
  have "\<forall>c \<in> set line. is_js_whitespace c" using assms by (simp add: trim_eq_Nil_iff)
  then have "lex LStart line = None \<or> lex LStart line = Some []" by (rule lex_blank)
  then show ?thesis by (auto simp: JSON_parse_def)
qed

lemma push_messages_eq:
  "push_messages lines queue = queue @ List.map_filter JSON_parse lines"
proof (induction lines arbitrary: queue)
  case Nil
  then show ?case by (simp add: List.map_filter_simps)
next
  case (Cons line lines)
  show ?case
  proof (cases "JSON_parse line")
    case None
    then show ?thesis using Cons by (simp add: List.map_filter_simps)
  next
    case (Some m)
    then have "trim line \<noteq> []" using blank_not_json by fastforce
    then show ?thesis using Cons Some by (simp add: List.map_filter_simps)
  qed
qed

lemma split_nl_append:
  "split_nl (a @ b) = butlast (split_nl a) @ split_nl (last (split_nl a) @ b)"
proof (induction a)
  case Nil
  then show ?case by (simp add: split_nl_Nil)
next
  case (Cons c a)
  obtain y ys where Y: "split_nl a = y # ys"
    using split_nl_nonempty by (cases "split_nl a") auto
  show ?case
  proof (cases "c = 0x0A")
    case True
    then show ?thesis using Cons Y by (simp add: split_nl_Cons)
  next
    case False
    show ?thesis
    proof (cases ys)
      case Nil
      then show ?thesis using Cons Y False by (simp add: split_nl_Cons)
    next
      case (Cons z zs)
      then show ?thesis using Cons.IH Y False by (simp add: split_nl_Cons)
    qed
  qed
qed

lemma last_split_nl:
  "last (split_nl t) = rev (takeWhile (\<lambda>c. c \<noteq> 0x0A) (rev t))"
proof (induction t rule: rev_induct)
  case Nil
  then show ?case by (simp add: split_nl_Nil)
next
  case (snoc c t)
  then show ?case by (simp add: split_nl_snoc)
qed

lemma last_split_nl_no_newline: "0x0A \<notin> set (last (split_nl t))"
proof -
  have "\<forall>c \<in> set (takeWhile (\<lambda>c. c \<noteq> 0x0A) (rev t)). c \<noteq> 0x0A"
    by (auto dest: set_takeWhileD)
  then show ?thesis unfolding last_split_nl by auto
qed

lemma on_stdout_data_buffer:
  "buffer (on_stdout_data data s) = last (split_nl (buffer s @ Buffer_toString data))"
  by (simp add: on_stdout_data_def Let_def)

lemma on_stdout_data_responses:
  "responses (on_stdout_data data s)
     = responses s
       @ List.map_filter JSON_parse (butlast (split_nl (buffer s @ Buffer_toString data)))"
  by (simp add: on_stdout_data_def Let_def push_messages_eq)

lemma map_filter_append:
  "List.map_filter f (xs @ ys) = List.map_filter f xs @ List.map_filter f ys"
  by (simp add: List.map_filter_def)

lemma split_nl_single:
  assumes "0x0A \<notin> set t"
  shows "split_nl t = [t]"
  using assms by (induction t) (auto simp: split_nl_Nil split_nl_Cons)

lemma receive_chunks_lines:
  assumes "0x0A \<notin> set (buffer s)"
  shows "buffer (receive_chunks chunks s)
           = last (split_nl (buffer s @ concat (map Buffer_toString chunks)))
   \<and> responses (receive_chunks chunks s)
       = responses s
         @ List.map_filter JSON_parse
             (butlast (split_nl (buffer s @ concat (map Buffer_toString chunks))))"
  using assms
proof (induction chunks arbitrary: s)
  case Nil
  then show ?case by (simp add: split_nl_single List.map_filter_simps)
next
  case (Cons chunk chunks)
  let ?s1 = "on_stdout_data chunk s"
  let ?t = "buffer s @ Buffer_toString chunk"
  let ?rest = "concat (map Buffer_toString chunks)"
  have sp: "split_nl (?t @ ?rest) = butlast (split_nl ?t) @ split_nl (buffer ?s1 @ ?rest)"
    unfolding on_stdout_data_buffer by (rule split_nl_append)
  have ne: "split_nl (buffer ?s1 @ ?rest) \<noteq> []" by (rule split_nl_nonempty)
  have l: "last (split_nl (?t @ ?rest)) = last (split_nl (buffer ?s1 @ ?rest))"
    unfolding sp using ne by simp
  have bl: "butlast (split_nl (?t @ ?rest))
              = butlast (split_nl ?t) @ butlast (split_nl (buffer ?s1 @ ?rest))"
    unfolding sp using ne by (simp add: butlast_append)
  have "0x0A \<notin> set (buffer ?s1)"
    unfolding on_stdout_data_buffer by (rule last_split_nl_no_newline)
  then show ?case
    using Cons.IH [of ?s1] l bl
    by (simp add: on_stdout_data_responses map_filter_append)
qed

subsection \<open>Chunks and characters\<close>

lemma utf8_feed_append:
  "utf8_feed st (a @ b)
     = (case utf8_feed st a of
          (st1, out1) \<Rightarrow> (case utf8_feed st1 b of (st2, out2) \<Rightarrow> (st2, out1 @ out2)))"
  by (induction a arbitrary: st) (simp_all split: prod.splits)

lemma Buffer_toString_append:
  assumes "ends_at_boundary a"
  shows "Buffer_toString (a @ b) = Buffer_toString a @ Buffer_toString b"
    and "ends_at_boundary (a @ b) = ends_at_boundary b"
  using assms
  by (auto simp: Buffer_toString_def ends_at_boundary_def utf8_feed_append utf8_flush_def
      split: prod.splits)

lemma Buffer_toString_concat:
  assumes "\<forall>chunk \<in> set chunks. ends_at_boundary chunk"
  shows "Buffer_toString (concat chunks) = concat (map Buffer_toString chunks)
         \<and> ends_at_boundary (concat chunks)"
  using assms
proof (induction chunks)
  case Nil
  show ?case by (simp add: Buffer_toString_def ends_at_boundary_def utf8_flush_def)
next
  case (Cons chunk chunks)
  then have "ends_at_boundary chunk" by simp
  then show ?case using Cons by (simp add: Buffer_toString_append)
qed

text \<open>
  The framing of the decoded texts. When the buffer holds no line feed before, then after
  the \<open>data\<close> handler has run on each chunk the buffer is the text after the last line
  feed of the earlier buffer followed by the texts of the chunks, it holds no line feed,
  and the receive queue has grown by the values of the complete lines that parse as
  JSON, in order. Where no chunk ends inside a character, the texts of the chunks make
  up the text of the whole stream.
\<close>

lemma receive_chunks_framing:
  assumes "0x0A \<notin> set (buffer s)"
  shows "buffer (receive_chunks chunks s)
           = rev (takeWhile (\<lambda>c. c \<noteq> 0x0A)
                    (rev (buffer s @ concat (map Buffer_toString chunks))))
         \<and> 0x0A \<notin> set (buffer (receive_chunks chunks s))
         \<and> responses (receive_chunks chunks s)
             = responses s
               @ List.map_filter JSON_parse
                   (butlast (split_nl (buffer s @ concat (map Buffer_toString chunks))))
         \<and> ((\<forall>chunk \<in> set chunks. ends_at_boundary chunk)
              \<longrightarrow> concat (map Buffer_toString chunks) = Buffer_toString (concat chunks))"
proof -
  note r = receive_chunks_lines [OF assms, of chunks]
  have "buffer (receive_chunks chunks s)
          = rev (takeWhile (\<lambda>c. c \<noteq> 0x0A)
                   (rev (buffer s @ concat (map Buffer_toString chunks))))"
    using r by (simp only: last_split_nl)
  moreover have "0x0A \<notin> set (buffer (receive_chunks chunks s))"
    using r last_split_nl_no_newline by simp
  moreover have "concat (map Buffer_toString chunks) = Buffer_toString (concat chunks)"
    if "\<forall>chunk \<in> set chunks. ends_at_boundary chunk"
    using Buffer_toString_concat [OF that] by simp
  ultimately show ?thesis using r by simp
qed

lemmas bridge_eval =
  on_stdout_data_def update_object_def start_send_def send_message_def close_session_def
  list_sessions_def create_session_def Let_def
  Buffer_toString_def utf8_lead_def utf8_flush_def code_units_def ascii_def

lemma receive_chunks_example:
  \<open>buffer (receive_chunks [ascii ''{"id"'', ascii '':1}\<newline>oops\<newline>\<newline>{"id":2'', ascii ''}\<newline>{"i'']
        \<lparr>buffer = [], responses = [], stdin_written = [], killed = False\<rparr>) = js ''{"i''
   \<and> responses (receive_chunks [ascii ''{"id"'', ascii '':1}\<newline>oops\<newline>\<newline>{"id":2'', ascii ''}\<newline>{"i'']
        \<lparr>buffer = [], responses = [], stdin_written = [], killed = False\<rparr>)
       = [JObject [(js ''id'', JNumber 1 0)], JObject [(js ''id'', JNumber 2 0)]]\<close>
  by (simp add: bridge_eval js_eval)

text \<open>
  C9 fails on the code. The handler decodes each chunk on its own, so that a character
  of several bytes that is cut by the end of a chunk is lost: each part becomes U+FFFD.
  The stream below is the line \<open>"\<bullet>"\<close> and then the unfinished line \<open>\<bullet>\<close>, where \<open>\<bullet>\<close> is
  U+2022, the bytes \<open>E2 80 A2\<close>, cut inside both characters. The text of the
  stream has the line that parses to the string U+2022, and U+2022 after its line feed;
  the handler queues the string of two U+FFFD and leaves two U+FFFD in the buffer.
\<close>

theorem stdout_data_cut_character:
  "Buffer_toString (concat [[0x22, 0xE2, 0x80], [0xA2, 0x22, 0x0A], [0xE2, 0x80], [0xA2]])
     = [0x22, 0x2022, 0x22, 0x0A, 0x2022]
   \<and> JSON_parse [0x22, 0x2022, 0x22] = Some (JString [0x2022])
   \<and> responses (receive_chunks [[0x22, 0xE2, 0x80], [0xA2, 0x22, 0x0A], [0xE2, 0x80], [0xA2]]
        \<lparr>buffer = [], responses = [], stdin_written = [], killed = False\<rparr>)
       = [JString [0xFFFD, 0xFFFD]]
   \<and> buffer (receive_chunks [[0x22, 0xE2, 0x80], [0xA2, 0x22, 0x0A], [0xE2, 0x80], [0xA2]]
        \<lparr>buffer = [], responses = [], stdin_written = [], killed = False\<rparr>)
       = [0xFFFD, 0xFFFD]"
  by (simp add: bridge_eval js_eval)


subsection \<open>Closing a session\<close>

lemma close_unknown:
  assumes "map_of (activeSessions b) sessionId = None"
  shows "close_session sessionId b = (Response 404 (ErrorBody (js ''Session not found'')), b)"
  using assms by (simp add: close_session_def)

lemma send_unknown:
  assumes "map_of (activeSessions b) sessionId = None"
  shows "send_message env sessionId message b
           = (Response 404 (ErrorBody (js ''Session not found'')), b)"
  using assms by (simp add: send_message_def)

lemma listed_ids_list_sessions: "listed_ids (list_sessions b) = map fst (activeSessions b)"
  by (simp add: list_sessions_def comp_def case_prod_unfold)

lemma close_known:
  assumes "map_of (activeSessions b) sessionId = Some r"
  shows "fst (close_session sessionId b) = Response 200 SessionClosed"
    and "killed (objects (snd (close_session sessionId b)) r)"
    and "activeSessions (snd (close_session sessionId b)) = AList.delete sessionId (activeSessions b)"
  using assms by (simp_all add: close_session_def update_object_def)

text \<open>
  C7. \<open>Close\<close> of an id that is not in the session table answers 404 and changes
  nothing. \<open>Close\<close> of a known id answers 200, calls \<open>kill()\<close> on the worker and removes
  the table entry: a second \<open>Close\<close> answers 404, the id is gone from the answer of
  \<open>GET /sessions\<close> (the other ids stay), and a \<open>Send\<close> to the id answers 404.
\<close>

theorem close_session_removes_entry:
  "(map_of (activeSessions b) sessionId = None \<longrightarrow>
      close_session sessionId b = (Response 404 (ErrorBody (js ''Session not found'')), b))
   \<and> (map_of (activeSessions b) sessionId = Some r \<longrightarrow>
        fst (close_session sessionId b) = Response 200 SessionClosed
        \<and> killed (objects (snd (close_session sessionId b)) r)
        \<and> map_of (activeSessions (snd (close_session sessionId b))) sessionId = None
        \<and> close_session sessionId (snd (close_session sessionId b))
            = (Response 404 (ErrorBody (js ''Session not found'')), snd (close_session sessionId b))
        \<and> sessionId \<notin> set (listed_ids (list_sessions (snd (close_session sessionId b))))
        \<and> set (listed_ids (list_sessions (snd (close_session sessionId b))))
            = set (listed_ids (list_sessions b)) - {sessionId}
        \<and> send_message env sessionId message (snd (close_session sessionId b))
            = (Response 404 (ErrorBody (js ''Session not found'')), snd (close_session sessionId b)))"
proof (intro conjI impI)
  assume "map_of (activeSessions b) sessionId = None"
  then show "close_session sessionId b = (Response 404 (ErrorBody (js ''Session not found'')), b)"
    by (rule close_unknown)
next
  assume known: "map_of (activeSessions b) sessionId = Some r"
  let ?b' = "snd (close_session sessionId b)"
  show "fst (close_session sessionId b) = Response 200 SessionClosed"
    using known by (rule close_known)
  show "killed (objects ?b' r)" using known by (rule close_known)
  have table: "activeSessions ?b' = AList.delete sessionId (activeSessions b)"
    using known by (rule close_known)
  show gone: "map_of (activeSessions ?b') sessionId = None"
    unfolding table by (simp add: delete_conv')
  show "close_session sessionId ?b' = (Response 404 (ErrorBody (js ''Session not found'')), ?b')"
    using gone by (rule close_unknown)
  show "sessionId \<notin> set (listed_ids (list_sessions ?b'))"
    unfolding listed_ids_list_sessions table by (simp add: delete_keys)
  show "set (listed_ids (list_sessions ?b')) = set (listed_ids (list_sessions b)) - {sessionId}"
    unfolding listed_ids_list_sessions table by (auto simp: delete_keys)
  show "send_message env sessionId message ?b'
          = (Response 404 (ErrorBody (js ''Session not found'')), ?b')"
    using gone by (rule send_unknown)
qed

theorem close_session_removes_entry_witness:
  "map_of (activeSessions
      \<lparr>objects = (\<lambda>r. \<lparr>buffer = [], responses = [], stdin_written = [], killed = False\<rparr>),
       activeSessions = [(js ''s1'', 0), (js ''s2'', 1)], allocated = 2\<rparr>) (js ''s1'') = Some 0
   \<and> fst (close_session (js ''s1'')
      \<lparr>objects = (\<lambda>r. \<lparr>buffer = [], responses = [], stdin_written = [], killed = False\<rparr>),
       activeSessions = [(js ''s1'', 0), (js ''s2'', 1)], allocated = 2\<rparr>) = Response 200 SessionClosed
   \<and> listed_ids (list_sessions (snd (close_session (js ''s1'')
      \<lparr>objects = (\<lambda>r. \<lparr>buffer = [], responses = [], stdin_written = [], killed = False\<rparr>),
       activeSessions = [(js ''s1'', 0), (js ''s2'', 1)], allocated = 2\<rparr>))) = [js ''s2'']
   \<and> fst (close_session (js ''s1'') (snd (close_session (js ''s1'')
      \<lparr>objects = (\<lambda>r. \<lparr>buffer = [], responses = [], stdin_written = [], killed = False\<rparr>),
       activeSessions = [(js ''s1'', 0), (js ''s2'', 1)], allocated = 2\<rparr>)))
       = Response 404 (ErrorBody (js ''Session not found''))
   \<and> fst (send_message \<lparr>arrivals = (\<lambda>k. []), lateness = (\<lambda>k. 0)\<rparr> (js ''s1'') (Some (JObject []))
        (snd (close_session (js ''s1'')
      \<lparr>objects = (\<lambda>r. \<lparr>buffer = [], responses = [], stdin_written = [], killed = False\<rparr>),
       activeSessions = [(js ''s1'', 0), (js ''s2'', 1)], allocated = 2\<rparr>)))
       = Response 404 (ErrorBody (js ''Session not found''))"
proof -
  let ?b = "\<lparr>objects = (\<lambda>r. \<lparr>buffer = [], responses = [], stdin_written = [], killed = False\<rparr>),
       activeSessions = [(js ''s1'', 0), (js ''s2'', 1)], allocated = 2\<rparr>"
  let ?env = "\<lparr>arrivals = (\<lambda>k. []), lateness = (\<lambda>k. 0)\<rparr>"
  have known: "map_of (activeSessions ?b) (js ''s1'') = Some 0" by (simp add: js_def)
  have listed: "listed_ids (list_sessions (snd (close_session (js ''s1'') ?b))) = [js ''s2'']"
    by (simp add: close_session_def list_sessions_def update_object_def js_def)
  note at_b = close_session_removes_entry [of ?b "js ''s1''" 0 ?env "Some (JObject [])"]
  have "fst (close_session (js ''s1'') ?b) = Response 200 SessionClosed"
    and "close_session (js ''s1'') (snd (close_session (js ''s1'') ?b))
           = (Response 404 (ErrorBody (js ''Session not found'')), snd (close_session (js ''s1'') ?b))"
    and "send_message ?env (js ''s1'') (Some (JObject [])) (snd (close_session (js ''s1'') ?b))
           = (Response 404 (ErrorBody (js ''Session not found'')), snd (close_session (js ''s1'') ?b))"
    using at_b known by blast+
  then show ?thesis using known listed by simp
qed

subsection \<open>Sending a message to a session\<close>

lemma elapsed_after_lower: "100 * k \<le> elapsed_after env k"
  by (induction k) auto

lemma wait_for_response_outcome:
  assumes "b = after_sleeps env k b0" and "elapsed = elapsed_after env k"
  shows "\<exists>n\<ge>k.
           (\<forall>j. k \<le> j \<and> j < n \<longrightarrow>
                responses (objects (after_sleeps env j b0) r) = [] \<and> elapsed_after env j \<le> 30000)
           \<and> ((responses (objects (after_sleeps env n b0) r) \<noteq> []
                \<and> wait_for_response env r k elapsed b
                    = (Response 200 (Message (hd (responses (objects (after_sleeps env n b0) r)))),
                       after_sleeps env n b0))
              \<or> (responses (objects (after_sleeps env n b0) r) = []
                  \<and> 30000 < elapsed_after env n
                  \<and> wait_for_response env r k elapsed b
                      = (Response 504 (ErrorBody (js ''Request timeout'')), after_sleeps env n b0)))"
  using assms
proof (induction env r k elapsed b rule: wait_for_response.induct)
  case (1 env r k elapsed b)
  show ?case
  proof (cases "responses (objects b r) \<noteq> []")
    case True
    then have "wait_for_response env r k elapsed b
                 = (Response 200 (Message (hd (responses (objects b r)))), b)"
      by (simp add: wait_for_response.simps)
    then show ?thesis using True "1.prems" by (intro exI [of _ k]) auto
  next
    case empty: False
    show ?thesis
    proof (cases "elapsed > 30000")
      case True
      then have "wait_for_response env r k elapsed b
                   = (Response 504 (ErrorBody (js ''Request timeout'')), b)"
        using empty by (simp add: wait_for_response.simps)
      then show ?thesis using True empty "1.prems" by (intro exI [of _ k]) auto
    next
      case False
      let ?b' = "foldl apply_event b (arrivals env k)"
      let ?e' = "elapsed + 100 + lateness env k"
      have step: "wait_for_response env r k elapsed b = wait_for_response env r (Suc k) ?e' ?b'"
        using empty False by (subst wait_for_response.simps) simp
      have b': "?b' = after_sleeps env (Suc k) b0" using "1.prems" by simp
      have e': "?e' = elapsed_after env (Suc k)" using "1.prems" by simp
      from "1.IH" [OF _ _ b' e'] empty False
      obtain n where n: "Suc k \<le> n"
        and before: "\<forall>j. Suc k \<le> j \<and> j < n \<longrightarrow>
                responses (objects (after_sleeps env j b0) r) = [] \<and> elapsed_after env j \<le> 30000"
        and at: "(responses (objects (after_sleeps env n b0) r) \<noteq> []
                \<and> wait_for_response env r (Suc k) ?e' ?b'
                    = (Response 200 (Message (hd (responses (objects (after_sleeps env n b0) r)))),
                       after_sleeps env n b0))
              \<or> (responses (objects (after_sleeps env n b0) r) = []
                  \<and> 30000 < elapsed_after env n
                  \<and> wait_for_response env r (Suc k) ?e' ?b'
                      = (Response 504 (ErrorBody (js ''Request timeout'')), after_sleeps env n b0))"
        by auto
      have here: "responses (objects (after_sleeps env k b0) r) = [] \<and> elapsed_after env k \<le> 30000"
        using empty False "1.prems" by simp
      have "\<forall>j. k \<le> j \<and> j < n \<longrightarrow>
                responses (objects (after_sleeps env j b0) r) = [] \<and> elapsed_after env j \<le> 30000"
      proof (intro allI impI)
        fix j assume j: "k \<le> j \<and> j < n"
        show "responses (objects (after_sleeps env j b0) r) = [] \<and> elapsed_after env j \<le> 30000"
        proof (cases "j = k")
          case True
          then show ?thesis using here by simp
        next
          case False
          then have "Suc k \<le> j \<and> j < n" using j by simp
          then show ?thesis using before by blast
        qed
      qed
      moreover have "k \<le> n" using n by simp
      ultimately show ?thesis using at unfolding step by blast
    qed
  qed
qed

lemma send_known:
  assumes "map_of (activeSessions b) sessionId = Some r" and "truthy m"
  shows "send_message env sessionId (Some m) b = wait_for_response env r 0 0 (start_send r m b)"
  using assms by (simp add: send_message_def)

lemma start_send_object:
  "responses (objects (start_send r m b) r) = []"
  "stdin_written (objects (start_send r m b) r) = stdin_written (objects b r) @ [m]"
  by (simp_all add: start_send_def update_object_def)

lemma send_known_outcome:
  assumes known: "map_of (activeSessions b) sessionId = Some r" and m: "truthy m"
  shows "\<exists>n\<le>301.
           (\<forall>j<n. responses (objects (after_sleeps env j (start_send r m b)) r) = []
                   \<and> elapsed_after env j \<le> 30000)
           \<and> ((responses (objects (after_sleeps env n (start_send r m b)) r) \<noteq> []
                \<and> send_message env sessionId (Some m) b
                    = (Response 200
                         (Message (hd (responses (objects (after_sleeps env n (start_send r m b)) r)))),
                       after_sleeps env n (start_send r m b)))
              \<or> (responses (objects (after_sleeps env n (start_send r m b)) r) = []
                  \<and> 30000 < elapsed_after env n
                  \<and> elapsed_after env n \<le> 30100 + lateness env (n - 1)
                  \<and> send_message env sessionId (Some m) b
                      = (Response 504 (ErrorBody (js ''Request timeout'')),
                         after_sleeps env n (start_send r m b))))"
proof -
  let ?b0 = "start_send r m b"
  let ?Q = "\<lambda>j. responses (objects (after_sleeps env j ?b0) r)"
  have send: "send_message env sessionId (Some m) b = wait_for_response env r 0 0 ?b0"
    using known m by (rule send_known)
  have "?b0 = after_sleeps env 0 ?b0" and "0 = elapsed_after env 0" by simp_all
  from wait_for_response_outcome [OF this, of r]
  obtain n where before: "\<forall>j. 0 \<le> j \<and> j < n \<longrightarrow> ?Q j = [] \<and> elapsed_after env j \<le> 30000"
    and at: "(?Q n \<noteq> []
                \<and> wait_for_response env r 0 0 ?b0
                    = (Response 200 (Message (hd (?Q n))), after_sleeps env n ?b0))
              \<or> (?Q n = [] \<and> 30000 < elapsed_after env n
                  \<and> wait_for_response env r 0 0 ?b0
                      = (Response 504 (ErrorBody (js ''Request timeout'')), after_sleeps env n ?b0))"
    by blast
  have bound: "n \<le> 301"
  proof (cases n)
    case 0
    then show ?thesis by simp
  next
    case (Suc p)
    then have "elapsed_after env p \<le> 30000" using before by simp
    moreover have "100 * p \<le> elapsed_after env p" by (rule elapsed_after_lower)
    ultimately show ?thesis using Suc by simp
  qed
  have late: "30000 < elapsed_after env n \<Longrightarrow> elapsed_after env n \<le> 30100 + lateness env (n - 1)"
  proof (cases n)
    case 0
    assume "30000 < elapsed_after env n"
    then show ?thesis using 0 by simp
  next
    case (Suc p)
    then have "elapsed_after env p \<le> 30000" using before by simp
    then show ?thesis using Suc by simp
  qed
  have before': "\<forall>j<n. ?Q j = [] \<and> elapsed_after env j \<le> 30000" using before by simp
  show ?thesis
    using bound before' at late unfolding send by (intro exI [of _ n]) blast
qed

text \<open>
  C6, as the code has it. \<open>Send\<close> to an id that is not in the session table answers 404
  and changes nothing. For a known id, a request whose message is missing or falsy
  answers 400 and changes nothing. For a known id and a truthy message, the receive queue is cleared
  and the message is written to the worker; the queue is then polled, a sleep of at least
  100 ms between two polls, at most 302 times. The answer is the first queued message at
  the first poll that finds the queue non-empty, or 504 at the first poll that finds it
  empty with more than 30000 ms gone, which is at most one sleep after the deadline. When
  no message is ever queued, as after the worker's exit, the answer is 504.
\<close>

theorem send_message_outcomes:
  "(map_of (activeSessions b) sessionId = None \<longrightarrow>
      send_message env sessionId message b
        = (Response 404 (ErrorBody (js ''Session not found'')), b))
   \<and> (map_of (activeSessions b) sessionId = Some r
        \<and> (message = None \<or> (\<exists>falsy. message = Some falsy \<and> \<not> truthy falsy)) \<longrightarrow>
        send_message env sessionId message b
          = (Response 400 (ErrorBody (js ''Message is required'')), b))
   \<and> (map_of (activeSessions b) sessionId = Some r \<and> truthy m \<longrightarrow>
        responses (objects (start_send r m b) r) = []
        \<and> stdin_written (objects (start_send r m b) r) = stdin_written (objects b r) @ [m]
        \<and> (\<exists>n\<le>301.
              (\<forall>j<n. responses (objects (after_sleeps env j (start_send r m b)) r) = []
                      \<and> elapsed_after env j \<le> 30000)
              \<and> ((responses (objects (after_sleeps env n (start_send r m b)) r) \<noteq> []
                   \<and> send_message env sessionId (Some m) b
                       = (Response 200
                            (Message (hd (responses (objects (after_sleeps env n (start_send r m b)) r)))),
                          after_sleeps env n (start_send r m b)))
                 \<or> (responses (objects (after_sleeps env n (start_send r m b)) r) = []
                     \<and> 30000 < elapsed_after env n
                     \<and> elapsed_after env n \<le> 30100 + lateness env (n - 1)
                     \<and> send_message env sessionId (Some m) b
                         = (Response 504 (ErrorBody (js ''Request timeout'')),
                            after_sleeps env n (start_send r m b)))))
        \<and> ((\<forall>j. responses (objects (after_sleeps env j (start_send r m b)) r) = [])
             \<longrightarrow> fst (send_message env sessionId (Some m) b)
                   = Response 504 (ErrorBody (js ''Request timeout''))))"
proof (intro conjI impI)
  assume "map_of (activeSessions b) sessionId = None"
  then show "send_message env sessionId message b
               = (Response 404 (ErrorBody (js ''Session not found'')), b)"
    by (rule send_unknown)
next
  assume "map_of (activeSessions b) sessionId = Some r
        \<and> (message = None \<or> (\<exists>falsy. message = Some falsy \<and> \<not> truthy falsy))"
  then show "send_message env sessionId message b
               = (Response 400 (ErrorBody (js ''Message is required'')), b)"
    by (auto simp: send_message_def)
next
  assume "map_of (activeSessions b) sessionId = Some r \<and> truthy m"
  show "responses (objects (start_send r m b) r) = []" by (rule start_send_object)
next
  assume "map_of (activeSessions b) sessionId = Some r \<and> truthy m"
  show "stdin_written (objects (start_send r m b) r) = stdin_written (objects b r) @ [m]"
    by (rule start_send_object)
next
  assume "map_of (activeSessions b) sessionId = Some r \<and> truthy m"
  then show "\<exists>n\<le>301.
              (\<forall>j<n. responses (objects (after_sleeps env j (start_send r m b)) r) = []
                      \<and> elapsed_after env j \<le> 30000)
              \<and> ((responses (objects (after_sleeps env n (start_send r m b)) r) \<noteq> []
                   \<and> send_message env sessionId (Some m) b
                       = (Response 200
                            (Message (hd (responses (objects (after_sleeps env n (start_send r m b)) r)))),
                          after_sleeps env n (start_send r m b)))
                 \<or> (responses (objects (after_sleeps env n (start_send r m b)) r) = []
                     \<and> 30000 < elapsed_after env n
                     \<and> elapsed_after env n \<le> 30100 + lateness env (n - 1)
                     \<and> send_message env sessionId (Some m) b
                         = (Response 504 (ErrorBody (js ''Request timeout'')),
                            after_sleeps env n (start_send r m b))))"
    using send_known_outcome by blast
next
  assume h: "map_of (activeSessions b) sessionId = Some r \<and> truthy m"
    and silent: "\<forall>j. responses (objects (after_sleeps env j (start_send r m b)) r) = []"
  from h have "map_of (activeSessions b) sessionId = Some r" and "truthy m" by simp_all
  from send_known_outcome [OF this, of env] silent
  show "fst (send_message env sessionId (Some m) b) = Response 504 (ErrorBody (js ''Request timeout''))"
    by auto
qed

theorem send_message_outcomes_witness:
  \<open>send_message \<lparr>arrivals = (\<lambda>k. []), lateness = (\<lambda>k. 0)\<rparr> (js ''s2'')
        (Some (JObject [(js ''method'', JString (js ''ping''))]))
        \<lparr>objects = (\<lambda>r. \<lparr>buffer = [], responses = [JNull], stdin_written = [], killed = False\<rparr>),
         activeSessions = [(js ''s1'', 0)], allocated = 1\<rparr>
      = (Response 404 (ErrorBody (js ''Session not found'')),
         \<lparr>objects = (\<lambda>r. \<lparr>buffer = [], responses = [JNull], stdin_written = [], killed = False\<rparr>),
          activeSessions = [(js ''s1'', 0)], allocated = 1\<rparr>)
   \<and> send_message \<lparr>arrivals = (\<lambda>k. []), lateness = (\<lambda>k. 0)\<rparr> (js ''s1'')
        (Some (JString []))
        \<lparr>objects = (\<lambda>r. \<lparr>buffer = [], responses = [JNull], stdin_written = [], killed = False\<rparr>),
         activeSessions = [(js ''s1'', 0)], allocated = 1\<rparr>
      = (Response 400 (ErrorBody (js ''Message is required'')),
         \<lparr>objects = (\<lambda>r. \<lparr>buffer = [], responses = [JNull], stdin_written = [], killed = False\<rparr>),
          activeSessions = [(js ''s1'', 0)], allocated = 1\<rparr>)
   \<and> fst (send_message
        \<lparr>arrivals = (\<lambda>k. if k = 0 then [StdoutData 0 (ascii ''{"ok":true}\<newline>'')] else []),
         lateness = (\<lambda>k. 0)\<rparr>
        (js ''s1'') (Some (JObject [(js ''method'', JString (js ''ping''))]))
        \<lparr>objects = (\<lambda>r. \<lparr>buffer = [], responses = [JNull], stdin_written = [], killed = False\<rparr>),
         activeSessions = [(js ''s1'', 0)], allocated = 1\<rparr>)
      = Response 200 (Message (JObject [(js ''ok'', JBool True)]))
   \<and> fst (send_message
        \<lparr>arrivals = (\<lambda>k. if k = 0 then [ProcessExit (js ''s1'')] else []),
         lateness = (\<lambda>k. 30000)\<rparr>
        (js ''s1'') (Some (JObject [(js ''method'', JString (js ''ping''))]))
        \<lparr>objects = (\<lambda>r. \<lparr>buffer = [], responses = [JNull], stdin_written = [], killed = False\<rparr>),
         activeSessions = [(js ''s1'', 0)], allocated = 1\<rparr>)
      = Response 504 (ErrorBody (js ''Request timeout''))\<close>
proof -
  let ?b = "\<lparr>objects = (\<lambda>r. \<lparr>buffer = [], responses = [JNull], stdin_written = [], killed = False\<rparr>),
       activeSessions = [(js ''s1'', 0)], allocated = 1\<rparr>"
  let ?m = "JObject [(js ''method'', JString (js ''ping''))]"
  let ?quiet = "\<lparr>arrivals = (\<lambda>k. []), lateness = (\<lambda>k. 0)\<rparr>"
  let ?reply = \<open>\<lparr>arrivals = (\<lambda>k. if k = 0 then [StdoutData 0 (ascii ''{"ok":true}\<newline>'')] else []),
         lateness = (\<lambda>k. 0)\<rparr>\<close>
  let ?exit = "\<lparr>arrivals = (\<lambda>k. if k = 0 then [ProcessExit (js ''s1'')] else []),
         lateness = (\<lambda>k. 30000)\<rparr>"
  have unknown: "map_of (activeSessions ?b) (js ''s2'') = None" by (simp add: js_def)
  have known: "map_of (activeSessions ?b) (js ''s1'') = Some 0" by (simp add: js_def)
  have m: "truthy ?m" by simp
  have falsy: "map_of (activeSessions ?b) (js ''s1'') = Some 0
        \<and> (Some (JString []) = None
            \<or> (\<exists>falsy. Some (JString []) = Some falsy \<and> \<not> truthy falsy))"
    using known by simp
  have not_found: "send_message ?quiet (js ''s2'') (Some ?m) ?b
                     = (Response 404 (ErrorBody (js ''Session not found'')), ?b)"
    using send_message_outcomes [where b = ?b and sessionId = "js ''s2''" and env = ?quiet
        and message = "Some ?m", THEN conjunct1, THEN mp, OF unknown] .
  have required: "send_message ?quiet (js ''s1'') (Some (JString [])) ?b
                    = (Response 400 (ErrorBody (js ''Message is required'')), ?b)"
    using send_message_outcomes [where b = ?b and sessionId = "js ''s1''" and env = ?quiet
        and message = "Some (JString [])" and r = 0,
        THEN conjunct2, THEN conjunct1, THEN mp, OF falsy] .
  have replied: "fst (send_message ?reply (js ''s1'') (Some ?m) ?b)
                   = Response 200 (Message (JObject [(js ''ok'', JBool True)]))"
    by (simp add: send_message_def start_send_def update_object_def wait_for_response.simps
        bridge_eval js_eval)
  have objs: "objects (after_sleeps ?exit j (start_send 0 ?m ?b)) = objects (start_send 0 ?m ?b)" for j
    by (induction j) simp_all
  have silent: "\<forall>j. responses (objects (after_sleeps ?exit j (start_send 0 ?m ?b)) 0) = []"
    unfolding objs by (simp add: start_send_object)
  have "fst (send_message ?exit (js ''s1'') (Some ?m) ?b)
          = Response 504 (ErrorBody (js ''Request timeout''))"
    using send_message_outcomes [where b = ?b and sessionId = "js ''s1''" and env = ?exit
        and r = 0 and m = ?m] known m silent
    by blast
  then show ?thesis using not_found required replied by (intro conjI)
qed

text \<open>
  The claim as stated fails for a known id when the request carries no message, or a
  falsy one: the answer is 400, the receive queue is not cleared and nothing is written
  to the worker.
\<close>

theorem send_message_without_message_counterexample:
  "send_message \<lparr>arrivals = (\<lambda>k. []), lateness = (\<lambda>k. 0)\<rparr> (js ''s1'') None
      \<lparr>objects = (\<lambda>r. \<lparr>buffer = [], responses = [JNull], stdin_written = [], killed = False\<rparr>),
       activeSessions = [(js ''s1'', 0)], allocated = 1\<rparr>
     = (Response 400 (ErrorBody (js ''Message is required'')),
        \<lparr>objects = (\<lambda>r. \<lparr>buffer = [], responses = [JNull], stdin_written = [], killed = False\<rparr>),
         activeSessions = [(js ''s1'', 0)], allocated = 1\<rparr>)
   \<and> send_message \<lparr>arrivals = (\<lambda>k. []), lateness = (\<lambda>k. 0)\<rparr> (js ''s1'') (Some (JBool False))
      \<lparr>objects = (\<lambda>r. \<lparr>buffer = [], responses = [JNull], stdin_written = [], killed = False\<rparr>),
       activeSessions = [(js ''s1'', 0)], allocated = 1\<rparr>
     = (Response 400 (ErrorBody (js ''Message is required'')),
        \<lparr>objects = (\<lambda>r. \<lparr>buffer = [], responses = [JNull], stdin_written = [], killed = False\<rparr>),
         activeSessions = [(js ''s1'', 0)], allocated = 1\<rparr>)"
  by (simp add: send_message_def js_def)

subsection \<open>One step of each polling loop\<close>

lemma queryTable_loop_error:
  assumes "pollCount < maxPolls" and "table_attempt env pollCount p = Inl e"
  shows "queryTable_loop env pollCount p tr = (Inl e, tr\<lparr>requests := requests tr @ [p]\<rparr>)"
  using assms by (subst queryTable_loop.simps) simp


lemma queryTable_loop_continue:
  assumes "pollCount < maxPolls" and "table_attempt env pollCount p = Inr (Continue p')"
  shows "queryTable_loop env pollCount p tr
           = queryTable_loop env (Suc pollCount) p'
               (tr\<lparr>requests := requests tr @ [p],
                  waited := (if pollCount < maxPolls - 1 then waited tr + pollInterval
                             else waited tr)\<rparr>)"
  using assms by (subst queryTable_loop.simps) simp




lemma pollSqlResults_finished:
  assumes "int pollCount < max_polls" and "sql_attempt env pollCount url = Inr (Finished reply)"
  shows "pollSqlResults env max_polls poll_interval pollCount url tr
           = (Inr reply, tr\<lparr>requests := requests tr @ [url], waited := waited tr + poll_interval\<rparr>)"
  using assms by (subst pollSqlResults.simps) simp

lemma pollSqlResults_continue:
  assumes "int pollCount < max_polls" and "sql_attempt env pollCount url = Inr (Continue url')"
  shows "pollSqlResults env max_polls poll_interval pollCount url tr
           = pollSqlResults env max_polls poll_interval (Suc pollCount) url'
               (tr\<lparr>requests := requests tr @ [url], waited := waited tr + poll_interval\<rparr>)"
  using assms by (subst pollSqlResults.simps) simp


subsection \<open>What the classifier returns\<close>

lemma scan_for_Some_object:
  assumes "scan_for key xs = Inr (Some obj)"
  shows "is_object obj \<and> has_field key obj"
  using assms
proof (induction xs)
  case Nil
  then show ?case by simp
next
  case (Cons x xs)
  show ?case
  proof (cases "truthy x")
    case False
    then show ?thesis using Cons by simp
  next
    case True
    then show ?thesis using Cons
      by (cases x) (force split: if_splits bool.splits)+
  qed
qed

lemma scan_for_None_objects:
  assumes "scan_for key xs = Inr None"
  shows "\<forall>v \<in> set xs. (truthy v \<longrightarrow> is_object v) \<and> \<not> has_field key v"
  using assms
proof (induction xs)
  case Nil
  then show ?case by simp
next
  case (Cons x xs)
  show ?case
  proof (cases "truthy x")
    case False
    then have "\<not> has_field key x" by (cases x) auto
    then show ?thesis using False Cons by simp
  next
    case True
    then show ?thesis using Cons
      by (cases x) (auto split: if_splits bool.splits)
  qed
qed

lemma parseJsonLinesResponse_object:
  assumes "parseJsonLinesResponse body = Inr result"
  shows "is_object result"
proof -
  let ?objs = "List.map_filter JSON_parse (response_lines body)"
  show ?thesis
  proof (cases "scan_for (js ''data'') (rev ?objs)")
    case (Inl e)
    then show ?thesis using assms
      by (simp add: parseJsonLinesResponse_def Let_def split: if_splits)
  next
    case d: (Inr found)
    show ?thesis
    proof (cases found)
      case (Some obj)
      then have "result = obj" using assms d
        by (simp add: parseJsonLinesResponse_def Let_def split: if_splits)
      then show ?thesis using scan_for_Some_object d Some by blast
    next
      case None
      note dn = this
      show ?thesis
      proof (cases "scan_for (js ''next_page_token'') (rev ?objs)")
        case (Inl e)
        then show ?thesis using assms d dn
          by (simp add: parseJsonLinesResponse_def Let_def split: if_splits)
      next
        case t: (Inr found')
        show ?thesis
        proof (cases found')
          case (Some obj)
          then have "result = obj" using assms d dn t
            by (simp add: parseJsonLinesResponse_def Let_def split: if_splits)
          then show ?thesis using scan_for_Some_object t Some by blast
        next
          case None
          let ?ne = "filter (\<lambda>obj. truthy obj \<and> has_keys obj) ?objs"
          have res: "?ne \<noteq> [] \<and> result = last ?ne" using assms d dn t None
            by (simp add: parseJsonLinesResponse_def Let_def split: if_splits)
          then have "result \<in> set ?ne" using last_in_set by metis
          then have "result \<in> set (rev ?objs)" and "truthy result" by auto
          moreover have "\<forall>v \<in> set (rev ?objs). (truthy v \<longrightarrow> is_object v) \<and> \<not> has_field (js ''data'') v"
            using d dn by (intro scan_for_None_objects) simp
          ultimately show ?thesis by blast
        qed
      qed
    qed
  qed
qed

lemma classify_response_object:
  assumes "classify_response data = Inr result"
  shows "is_object result"
  using assms parseJsonLinesResponse_object by (cases data) auto

lemma in_operator_object:
  assumes "is_object v"
  shows "in_operator key v = Inr (has_field key v)"
  using assms by (cases v) auto

subsection \<open>The responses of the examples\<close>

lemma decode_json_response: "decode_response env (json_response v) = Inr v"
  by (simp add: decode_response_def json_response_def is_json_content_def startsWith_def js_def)


text \<open>
  A body that the client has decoded to an object, under a content type that is not
  JSON: \<open>JSON.parse\<close> reads the object as text and throws, and the \<open>catch\<close> throws again,
  an object having no \<open>substring\<close>.
\<close>

lemma decode_response_decoded_object:
  assumes "\<not> is_json_content (content_type r)" and "response_data r = JObject ms"
  shows "decode_response env r = Inl TypeError"
proof -
  have "JSON_parse (js ''[object Object]'') = None"
    by (simp add: JSON_parse_def js_def start_step_def is_json_whitespace_def is_digit_def)
  then show ?thesis
    using assms by (simp add: decode_response_def JSON_parse_value_def)
qed


subsection \<open>A response with no rows and no continuation\<close>

lemma sql_attempt_empty:
  assumes "http_get env pollCount url = Inr r" and "decode_response env r = Inr pollResult"
    and "check_errors pollResult = Inr ()"
    and "nonempty_member (member pollResult (js ''data'')) = Inr False"
    and "\<not> truthy_member (next_page_url pollResult)"
  shows "sql_attempt env pollCount url = Inr (Finished SqlNoResults)"
  using assms by (simp add: sql_attempt_def)

lemma sql_first_empty:
  assumes "http_submit env = Inr r" and "decode_response env r = Inr result"
    and "check_errors result = Inr ()"
    and "nonempty_member (member result (js ''data'')) = Inr False"
    and "\<not> truthy_member (next_page_url result)"
  shows "sql_first env = Inr (Finished SqlNoResults)"
  using assms by (simp add: sql_first_def)

lemma table_attempt_unexpected:
  assumes "http_post env pollCount p = Inr data" and "classify_response data = Inr result"
    and "\<not> (has_field (js ''data'') result \<and> isArray (member result (js ''data'')))"
    and "\<not> has_field (js ''next_page_token'') result"
  shows "table_attempt env pollCount p = Inl (UnexpectedResponseFormat result)"
proof -
  have "is_object result" using assms(2) by (rule classify_response_object)
  then have "\<And>key. in_operator key result = Inr (has_field key result)"
    by (rule in_operator_object)
  then show ?thesis using assms by (auto simp: table_attempt_def)
qed

text \<open>
  C2, as the code has it. In the SQL search, at the first request and at every poll, a
  response that is decoded without error, reports no errors, has no rows and names no
  next page ends the search with the reply \<open>SQL query completed with no results\<close>. The
  table query has no such reply: a classified response with neither a \<open>data\<close> array nor
  a \<open>next_page_token\<close> field makes the loop throw \<open>Unexpected response format\<close>, which
  \<open>queryTable\<close> throws again as \<open>Failed to query table\<close>.
\<close>

theorem empty_result_outcomes:
  "(int pollCount < max_polls \<and> http_get senv pollCount url = Inr r
      \<and> decode_response senv r = Inr pollResult \<and> check_errors pollResult = Inr ()
      \<and> nonempty_member (member pollResult (js ''data'')) = Inr False
      \<and> \<not> truthy_member (next_page_url pollResult)
    \<longrightarrow> pollSqlResults senv max_polls poll_interval pollCount url tr
          = (Inr SqlNoResults,
             tr\<lparr>requests := requests tr @ [url], waited := waited tr + poll_interval\<rparr>))
   \<and> (getNetworkUrl (sq_network sargs) = Inr base \<and> http_submit senv = Inr r
        \<and> decode_response senv r = Inr pollResult \<and> check_errors pollResult = Inr ()
        \<and> nonempty_member (member pollResult (js ''data'')) = Inr False
        \<and> \<not> truthy_member (next_page_url pollResult)
      \<longrightarrow> sqlSearch senv sargs = (Inr SqlNoResults, no_trace))
   \<and> (k < maxPolls \<and> http_post tenv k p = Inr data \<and> classify_response data = Inr result
        \<and> \<not> (has_field (js ''data'') result \<and> isArray (member result (js ''data'')))
        \<and> \<not> has_field (js ''next_page_token'') result
      \<longrightarrow> queryTable_loop tenv k p ttr
            = (Inl (UnexpectedResponseFormat result), ttr\<lparr>requests := requests ttr @ [p]\<rparr>))
   \<and> (getNetworkUrl (qt_network targs) = Inr base
        \<and> http_post tenv 0 (initial_payload targs) = Inr data
        \<and> classify_response data = Inr result
        \<and> \<not> (has_field (js ''data'') result \<and> isArray (member result (js ''data'')))
        \<and> \<not> has_field (js ''next_page_token'') result
      \<longrightarrow> fst (queryTable tenv targs) = Inl (FailedToQueryTable (UnexpectedResponseFormat result)))"
proof (intro conjI impI)
  assume h: "int pollCount < max_polls \<and> http_get senv pollCount url = Inr r
      \<and> decode_response senv r = Inr pollResult \<and> check_errors pollResult = Inr ()
      \<and> nonempty_member (member pollResult (js ''data'')) = Inr False
      \<and> \<not> truthy_member (next_page_url pollResult)"
  then have "sql_attempt senv pollCount url = Inr (Finished SqlNoResults)"
    using sql_attempt_empty by blast
  then show "pollSqlResults senv max_polls poll_interval pollCount url tr
          = (Inr SqlNoResults,
             tr\<lparr>requests := requests tr @ [url], waited := waited tr + poll_interval\<rparr>)"
    using h pollSqlResults_finished by blast
next
  assume h: "getNetworkUrl (sq_network sargs) = Inr base \<and> http_submit senv = Inr r
        \<and> decode_response senv r = Inr pollResult \<and> check_errors pollResult = Inr ()
        \<and> nonempty_member (member pollResult (js ''data'')) = Inr False
        \<and> \<not> truthy_member (next_page_url pollResult)"
  then have "sql_first senv = Inr (Finished SqlNoResults)"
    using sql_first_empty by blast
  then show "sqlSearch senv sargs = (Inr SqlNoResults, no_trace)"
    using h by (simp add: sqlSearch_def)
next
  assume h: "k < maxPolls \<and> http_post tenv k p = Inr data \<and> classify_response data = Inr result
        \<and> \<not> (has_field (js ''data'') result \<and> isArray (member result (js ''data'')))
        \<and> \<not> has_field (js ''next_page_token'') result"
  then have "table_attempt tenv k p = Inl (UnexpectedResponseFormat result)"
    using table_attempt_unexpected by blast
  then show "queryTable_loop tenv k p ttr
            = (Inl (UnexpectedResponseFormat result), ttr\<lparr>requests := requests ttr @ [p]\<rparr>)"
    using h queryTable_loop_error by blast
next
  assume h: "getNetworkUrl (qt_network targs) = Inr base
        \<and> http_post tenv 0 (initial_payload targs) = Inr data
        \<and> classify_response data = Inr result
        \<and> \<not> (has_field (js ''data'') result \<and> isArray (member result (js ''data'')))
        \<and> \<not> has_field (js ''next_page_token'') result"
  then have "table_attempt tenv 0 (initial_payload targs) = Inl (UnexpectedResponseFormat result)"
    using table_attempt_unexpected by blast
  then have "queryTable_loop tenv 0 (initial_payload targs) no_trace
               = (Inl (UnexpectedResponseFormat result),
                  no_trace\<lparr>requests := requests no_trace @ [initial_payload targs]\<rparr>)"
    using queryTable_loop_error [of 0] by (simp add: maxPolls_def)
  then show "fst (queryTable tenv targs) = Inl (FailedToQueryTable (UnexpectedResponseFormat result))"
    using h by (simp add: queryTable_def)
qed

lemmas poll_eval =
  decode_response_def is_json_content_def JSON_parse_value_def json_response_def
  text_response_def queryTable_def sqlSearch_def sql_first_def sql_attempt_def table_attempt_def
  check_errors_def next_page_url_def nonempty_member_def continue_payload_def
  initial_payload_def no_trace_def maxPolls_def pollInterval_def error_details_def
  getNetworkUrl_def knownNetworks_def Object_prototype_properties_def with_scheme_def
  strip_trailing_slash_def endsWith_def startsWith_def

text \<open>
  The claim as stated fails for the table query: a body of two lines, an object with
  content but without rows or a token and an empty object, is classified as the former,
  and the query fails.
\<close>

theorem table_query_empty_counterexample:
  \<open>parseJsonLinesResponse (js ''{"status":"done"}\<newline>{}'')
     = Inr (JObject [(js ''status'', JString (js ''done''))])
   \<and> queryTable
        \<lparr>http_post = (\<lambda>k p. Inr (JString (js ''{"status":"done"}\<newline>{}''))),
         render_rows = (\<lambda>result. Inr (js ''rows''))\<rparr>
        \<lparr>qt_network = js ''viral'', qt_table_name = js ''variants'', qt_filters = None,
         qt_limit = None, qt_offset = None, qt_order_by = None\<rparr>
     = (Inl (FailedToQueryTable
              (UnexpectedResponseFormat (JObject [(js ''status'', JString (js ''done''))]))),
        \<lparr>requests = [\<lparr>tableName = js ''variants'', filters = JObject [],
                      pagination_limit = JNumber 100 0, pagination_offset = JNumber 0 0,
                      order = None, next_page_token = None\<rparr>],
         waited = 0\<rparr>)\<close>
  by (simp add: poll_eval js_eval queryTable_loop.simps)

theorem empty_result_outcomes_witness:
  \<open>fst (sqlSearch
        \<lparr>http_submit = Inr (json_response (JObject [(js ''data'', JArray [])])),
         http_get = (\<lambda>k url. Inl (RequestFailed (js ''unused''))),
         formatSqlResults = (\<lambda>result. Inr (js ''rows'')),
         number_to_string = (\<lambda>m e. [])\<rparr>
        \<lparr>sq_network = js ''viral'', sq_max_polls = 10, sq_poll_interval = 2000\<rparr>)
     = Inr SqlNoResults
   \<and> fst (pollSqlResults
        \<lparr>http_submit = Inr (json_response (JObject [(js ''data'', JArray [])])),
         http_get = (\<lambda>k url. Inr (json_response (JObject [(js ''data'', JArray []), (js ''pagination'', JObject [])]))),
         formatSqlResults = (\<lambda>result. Inr (js ''rows'')),
         number_to_string = (\<lambda>m e. [])\<rparr>
        10 2000 0 (JString (js ''/next/1'')) no_trace)
     = Inr SqlNoResults\<close>
proof -
  let ?first = "Inr (json_response (JObject [(js ''data'', JArray [])])) :: js_error + response"
  let ?e1 = "\<lparr>http_submit = ?first,
         http_get = (\<lambda>k url. Inl (RequestFailed (js ''unused''))),
         formatSqlResults = (\<lambda>result. Inr (js ''rows'')),
         number_to_string = (\<lambda>m e. [])\<rparr>"
  let ?e2 = \<open>\<lparr>http_submit = ?first,
         http_get = (\<lambda>k url. Inr (json_response (JObject [(js ''data'', JArray []), (js ''pagination'', JObject [])]))),
         formatSqlResults = (\<lambda>result. Inr (js ''rows'')),
         number_to_string = (\<lambda>m e. [])\<rparr>\<close>
  let ?args = "\<lparr>sq_network = js ''viral'', sq_max_polls = 10, sq_poll_interval = 2000\<rparr>"
  let ?t = "no_trace :: json trace"
  let ?r1 = "JObject [(js ''data'', JArray [])]"
  let ?r2 = "JObject [(js ''data'', JArray []), (js ''pagination'', JObject [])]"
  have net: "getNetworkUrl (sq_network ?args) = Inr (js ''https://viral.ai'')"
    by (simp add: poll_eval js_def)
  have h1: "http_submit ?e1 = Inr (json_response ?r1) \<and> decode_response ?e1 (json_response ?r1) = Inr ?r1
        \<and> check_errors ?r1 = Inr ()
        \<and> nonempty_member (member ?r1 (js ''data'')) = Inr False
        \<and> \<not> truthy_member (next_page_url ?r1)"
    by (simp add: poll_eval js_def rounds_to_zero_def)
  have d2: \<open>decode_response ?e2 (json_response ?r2) = Inr ?r2\<close>
    by (rule decode_json_response)
  have h2: \<open>(10::int) > int 0
        \<and> http_get ?e2 0 (JString (js ''/next/1'')) = Inr (json_response (JObject [(js ''data'', JArray []), (js ''pagination'', JObject [])]))
        \<and> check_errors ?r2 = Inr ()
        \<and> nonempty_member (member ?r2 (js ''data'')) = Inr False
        \<and> \<not> truthy_member (next_page_url ?r2)\<close>
    by (simp add: poll_eval js_def rounds_to_zero_def)
  have p1: "getNetworkUrl (sq_network ?args) = Inr (js ''https://viral.ai'')
        \<and> http_submit ?e1 = Inr (json_response ?r1) \<and> decode_response ?e1 (json_response ?r1) = Inr ?r1
        \<and> check_errors ?r1 = Inr ()
        \<and> nonempty_member (member ?r1 (js ''data'')) = Inr False
        \<and> \<not> truthy_member (next_page_url ?r1)"
    using net h1 by blast
  have "sqlSearch ?e1 ?args = (Inr SqlNoResults, no_trace)"
    using empty_result_outcomes [where senv = ?e1 and sargs = ?args and r = "json_response ?r1"
        and pollResult = ?r1 and base = "js ''https://viral.ai''",
        THEN conjunct2, THEN conjunct1, THEN mp, OF p1] .
  moreover have p2: \<open>int 0 < 10
        \<and> http_get ?e2 0 (JString (js ''/next/1'')) = Inr (json_response (JObject [(js ''data'', JArray []), (js ''pagination'', JObject [])]))
        \<and> decode_response ?e2 (json_response ?r2) = Inr ?r2
        \<and> check_errors ?r2 = Inr ()
        \<and> nonempty_member (member ?r2 (js ''data'')) = Inr False
        \<and> \<not> truthy_member (next_page_url ?r2)\<close>
    using d2 h2 by simp
  have "pollSqlResults ?e2 10 2000 0 (JString (js ''/next/1'')) ?t
          = (Inr SqlNoResults,
             ?t\<lparr>requests := requests ?t @ [JString (js ''/next/1'')],
                      waited := waited ?t + 2000\<rparr>)"
    using empty_result_outcomes [where senv = ?e2 and pollCount = 0 and max_polls = 10
        and poll_interval = 2000 and tr = ?t
        and url = "JString (js ''/next/1'')" and pollResult = ?r2
        and r = \<open>json_response (JObject [(js ''data'', JArray []), (js ''pagination'', JObject [])])\<close>,
        THEN conjunct1, THEN mp, OF p2] .
  ultimately show ?thesis by simp
qed


subsection \<open>An attempt that fails\<close>










subsection \<open>An attempt that asks for another\<close>

lemma member_has_field:
  assumes "member v key = Some x"
  shows "has_field key v"
  using assms by (cases v) (auto dest: map_of_SomeD intro: rev_image_eqI)

lemma table_attempt_continue:
  assumes "http_post env pollCount p = Inr data" and "classify_response data = Inr result"
    and "\<not> (has_field (js ''data'') result \<and> isArray (member result (js ''data'')))"
    and "has_field (js ''next_page_token'') result"
  shows "table_attempt env pollCount p = Inr (Continue (continue_payload result p))"
proof -
  have "is_object result" using assms(2) by (rule classify_response_object)
  then have "\<And>key. in_operator key result = Inr (has_field key result)"
    by (rule in_operator_object)
  then show ?thesis using assms by (auto simp: table_attempt_def)
qed

lemma sql_attempt_continue:
  assumes "http_get env pollCount url = Inr r" and "decode_response env r = Inr pollResult"
    and "check_errors pollResult = Inr ()"
    and "nonempty_member (member pollResult (js ''data'')) = Inr False"
    and "next_page_url pollResult = Some next_url" and "truthy next_url"
  shows "sql_attempt env pollCount url = Inr (Continue next_url)"
  using assms by (simp add: sql_attempt_def)

text \<open>
  C5, as the code has it. In the table query a response with a \<open>next_page_token\<close> leaves
  the payload of the next request as it was when the token is the string
  \<open>empty_response_poll\<close>, and sets the payload's \<open>next_page_token\<close> to the token, the other
  fields as they were, when it is any other value. The SQL search has no such string:
  after a response that is decoded without error, reports no errors and has no rows, the
  next poll goes to whatever truthy \<open>next_page_url\<close> that response carries.
\<close>

theorem continuation_outcomes:
  "(k < maxPolls \<and> http_post tenv k p = Inr data \<and> classify_response data = Inr result
      \<and> \<not> (has_field (js ''data'') result \<and> isArray (member result (js ''data'')))
      \<and> member result (js ''next_page_token'') = Some token
    \<longrightarrow> queryTable_loop tenv k p ttr
          = queryTable_loop tenv (Suc k)
              (if token = JString (js ''empty_response_poll'') then p
               else \<lparr>tableName = tableName p, filters = filters p,
                      pagination_limit = pagination_limit p,
                      pagination_offset = pagination_offset p,
                      order = order p, next_page_token = Some token\<rparr>)
              (ttr\<lparr>requests := requests ttr @ [p],
                  waited := (if k < maxPolls - 1 then waited ttr + pollInterval
                             else waited ttr)\<rparr>))
   \<and> (int n < max_polls \<and> http_get senv n url = Inr r \<and> decode_response senv r = Inr pollResult
        \<and> check_errors pollResult = Inr ()
        \<and> nonempty_member (member pollResult (js ''data'')) = Inr False
        \<and> next_page_url pollResult = Some next_url \<and> truthy next_url
      \<longrightarrow> pollSqlResults senv max_polls poll_interval n url tr
            = pollSqlResults senv max_polls poll_interval (Suc n) next_url
                (tr\<lparr>requests := requests tr @ [url], waited := waited tr + poll_interval\<rparr>))"
proof (intro conjI impI)
  assume h: "k < maxPolls \<and> http_post tenv k p = Inr data \<and> classify_response data = Inr result
      \<and> \<not> (has_field (js ''data'') result \<and> isArray (member result (js ''data'')))
      \<and> member result (js ''next_page_token'') = Some token"
  then have "has_field (js ''next_page_token'') result"
    using member_has_field by blast
  then have "table_attempt tenv k p = Inr (Continue (continue_payload result p))"
    using h table_attempt_continue by blast
  moreover have "continue_payload result p
                   = (if token = JString (js ''empty_response_poll'') then p
                      else \<lparr>tableName = tableName p, filters = filters p,
                             pagination_limit = pagination_limit p,
                             pagination_offset = pagination_offset p,
                             order = order p, next_page_token = Some token\<rparr>)"
    using h by (simp add: continue_payload_def)
  ultimately have next_attempt: "table_attempt tenv k p
          = Inr (Continue
              (if token = JString (js ''empty_response_poll'') then p
               else \<lparr>tableName = tableName p, filters = filters p,
                      pagination_limit = pagination_limit p,
                      pagination_offset = pagination_offset p,
                      order = order p, next_page_token = Some token\<rparr>))"
    by simp
  have "k < maxPolls" using h by simp
  then show "queryTable_loop tenv k p ttr
          = queryTable_loop tenv (Suc k)
              (if token = JString (js ''empty_response_poll'') then p
               else \<lparr>tableName = tableName p, filters = filters p,
                      pagination_limit = pagination_limit p,
                      pagination_offset = pagination_offset p,
                      order = order p, next_page_token = Some token\<rparr>)
              (ttr\<lparr>requests := requests ttr @ [p],
                  waited := (if k < maxPolls - 1 then waited ttr + pollInterval
                             else waited ttr)\<rparr>)"
    using next_attempt by (rule queryTable_loop_continue)
next
  assume h: "int n < max_polls \<and> http_get senv n url = Inr r \<and> decode_response senv r = Inr pollResult
        \<and> check_errors pollResult = Inr ()
        \<and> nonempty_member (member pollResult (js ''data'')) = Inr False
        \<and> next_page_url pollResult = Some next_url \<and> truthy next_url"
  then have "sql_attempt senv n url = Inr (Continue next_url)"
    using sql_attempt_continue by blast
  then show "pollSqlResults senv max_polls poll_interval n url tr
            = pollSqlResults senv max_polls poll_interval (Suc n) next_url
                (tr\<lparr>requests := requests tr @ [url], waited := waited tr + poll_interval\<rparr>)"
    using h pollSqlResults_continue by blast
qed

text \<open>
  The claim as stated fails for the SQL search: a poll answered with the next page URL
  \<open>empty_response_poll\<close> is followed by a poll at that string, not at the URL polled
  before.
\<close>

theorem sql_sentinel_counterexample:
  \<open>sqlSearch
      \<lparr>http_submit = Inr (json_response (JObject [(js ''pagination'',
                        JObject [(js ''next_page_url'', JString (js ''/next/1''))])])),
       http_get = (\<lambda>k url. if k = 0
                         then Inr (json_response (JObject [(js ''pagination'',
                                JObject [(js ''next_page_url'',
                                          JString (js ''empty_response_poll''))])]))
                         else Inr (json_response (JObject [(js ''data'', JArray [JNumber 1 0])]))),
       formatSqlResults = (\<lambda>result. Inr (js ''rows'')),
         number_to_string = (\<lambda>m e. [])\<rparr>
      \<lparr>sq_network = js ''viral'', sq_max_polls = 10, sq_poll_interval = 2000\<rparr>
     = (Inr (ReplyText (js ''rows'')),
        \<lparr>requests = [JString (js ''/next/1''), JString (js ''empty_response_poll'')],
         waited = 4000\<rparr>)\<close>
  by (simp add: poll_eval js_eval pollSqlResults.simps)

theorem continuation_outcomes_witness:
  \<open>queryTable_loop
      \<lparr>http_post = (\<lambda>k p. if k = 0
                          then Inr (JString (js ''{"next_page_token":"empty_response_poll"}''))
                          else Inr (JString (js ''{"data":[]}''))),
       render_rows = (\<lambda>result. Inr (js ''rows''))\<rparr>
      0
      \<lparr>tableName = js ''variants'', filters = JObject [], pagination_limit = JNumber 100 0,
       pagination_offset = JNumber 0 0, order = None, next_page_token = None\<rparr>
      \<lparr>requests = [], waited = 0\<rparr>
     = (Inr (ReplyText (js ''rows'')),
        \<lparr>requests =
           [\<lparr>tableName = js ''variants'', filters = JObject [],
             pagination_limit = JNumber 100 0, pagination_offset = JNumber 0 0,
             order = None, next_page_token = None\<rparr>,
            \<lparr>tableName = js ''variants'', filters = JObject [],
             pagination_limit = JNumber 100 0, pagination_offset = JNumber 0 0,
             order = None, next_page_token = None\<rparr>],
         waited = 2000\<rparr>)
   \<and> queryTable_loop
      \<lparr>http_post = (\<lambda>k p. if k = 0 then Inr (JString (js ''{"next_page_token":"t2"}''))
                          else Inr (JString (js ''{"data":[]}''))),
       render_rows = (\<lambda>result. Inr (js ''rows''))\<rparr>
      0
      \<lparr>tableName = js ''variants'', filters = JObject [], pagination_limit = JNumber 100 0,
       pagination_offset = JNumber 0 0, order = None, next_page_token = None\<rparr>
      \<lparr>requests = [], waited = 0\<rparr>
     = (Inr (ReplyText (js ''rows'')),
        \<lparr>requests =
           [\<lparr>tableName = js ''variants'', filters = JObject [],
             pagination_limit = JNumber 100 0, pagination_offset = JNumber 0 0,
             order = None, next_page_token = None\<rparr>,
            \<lparr>tableName = js ''variants'', filters = JObject [],
             pagination_limit = JNumber 100 0, pagination_offset = JNumber 0 0,
             order = None, next_page_token = Some (JString (js ''t2''))\<rparr>],
         waited = 2000\<rparr>)
   \<and> pollSqlResults
      \<lparr>http_submit = Inl (RequestFailed (js ''unused'')),
       http_get = (\<lambda>k url. if k = 0
                         then Inr (json_response (JObject [(js ''pagination'',
                                JObject [(js ''next_page_url'', JString (js ''/next/2''))])]))
                         else Inr (json_response (JObject [(js ''data'', JArray [JNumber 1 0])]))),
       formatSqlResults = (\<lambda>result. Inr (js ''rows'')),
         number_to_string = (\<lambda>m e. [])\<rparr>
      10 2000 0 (JString (js ''/next/1'')) \<lparr>requests = [], waited = 0\<rparr>
     = (Inr (ReplyText (js ''rows'')),
        \<lparr>requests = [JString (js ''/next/1''), JString (js ''/next/2'')], waited = 4000\<rparr>)\<close>
proof -
  let ?same = \<open>JString (js ''{"next_page_token":"empty_response_poll"}'')\<close>
  let ?other = \<open>JString (js ''{"next_page_token":"t2"}'')\<close>
  let ?rows = \<open>Inr (JString (js ''{"data":[]}'')) :: js_error + json\<close>
  let ?tenv1 = "\<lparr>http_post = (\<lambda>k p. if k = 0 then Inr ?same else ?rows),
       render_rows = (\<lambda>result. Inr (js ''rows''))\<rparr>"
  let ?tenv2 = "\<lparr>http_post = (\<lambda>k p. if k = 0 then Inr ?other else ?rows),
       render_rows = (\<lambda>result. Inr (js ''rows''))\<rparr>"
  let ?p = "\<lparr>tableName = js ''variants'', filters = JObject [], pagination_limit = JNumber 100 0,
       pagination_offset = JNumber 0 0, order = None, next_page_token = None\<rparr>"
  let ?p2 = "\<lparr>tableName = js ''variants'', filters = JObject [], pagination_limit = JNumber 100 0,
       pagination_offset = JNumber 0 0, order = None,
       next_page_token = Some (JString (js ''t2''))\<rparr>"
  let ?t0 = "\<lparr>requests = [], waited = 0\<rparr> :: payload trace"
  let ?res1 = "JObject [(js ''next_page_token'', JString (js ''empty_response_poll''))]"
  let ?res2 = "JObject [(js ''next_page_token'', JString (js ''t2''))]"
  let ?page = "JObject [(js ''pagination'',
                 JObject [(js ''next_page_url'', JString (js ''/next/2''))])]"
  let ?senv = "\<lparr>http_submit = Inl (RequestFailed (js ''unused'')),
       http_get = (\<lambda>k url. if k = 0 then Inr (json_response ?page)
                         else Inr (json_response (JObject [(js ''data'', JArray [JNumber 1 0])]))),
       formatSqlResults = (\<lambda>result. Inr (js ''rows'')),
         number_to_string = (\<lambda>m e. [])\<rparr>"
  let ?u0 = "\<lparr>requests = [], waited = 0\<rparr> :: json trace"
  have c1: "classify_response ?same = Inr ?res1"
    by (simp add: js_eval)
  have c2: "classify_response ?other = Inr ?res2"
    by (simp add: js_eval)
  have h1: "0 < maxPolls \<and> http_post ?tenv1 0 ?p = Inr ?same \<and> classify_response ?same = Inr ?res1
      \<and> \<not> (has_field (js ''data'') ?res1 \<and> isArray (member ?res1 (js ''data'')))
      \<and> member ?res1 (js ''next_page_token'') = Some (JString (js ''empty_response_poll''))"
    using c1 by (simp add: maxPolls_def js_def)
  have h2: "0 < maxPolls \<and> http_post ?tenv2 0 ?p = Inr ?other \<and> classify_response ?other = Inr ?res2
      \<and> \<not> (has_field (js ''data'') ?res2 \<and> isArray (member ?res2 (js ''data'')))
      \<and> member ?res2 (js ''next_page_token'') = Some (JString (js ''t2''))"
    using c2 by (simp add: maxPolls_def js_def)
  have h3: "int 0 < 10 \<and> http_get ?senv 0 (JString (js ''/next/1'')) = Inr (json_response ?page)
        \<and> decode_response ?senv (json_response ?page) = Inr ?page
        \<and> check_errors ?page = Inr ()
        \<and> nonempty_member (member ?page (js ''data'')) = Inr False
        \<and> next_page_url ?page = Some (JString (js ''/next/2''))
        \<and> truthy (JString (js ''/next/2''))"
    by (simp add: poll_eval js_def)
  have "queryTable_loop ?tenv1 0 ?p ?t0
          = queryTable_loop ?tenv1 (Suc 0)
              (if JString (js ''empty_response_poll'') = JString (js ''empty_response_poll'')
               then ?p
               else \<lparr>tableName = tableName ?p, filters = filters ?p,
                      pagination_limit = pagination_limit ?p,
                      pagination_offset = pagination_offset ?p,
                      order = order ?p,
                      next_page_token = Some (JString (js ''empty_response_poll''))\<rparr>)
              (?t0\<lparr>requests := requests ?t0 @ [?p],
                  waited := (if 0 < maxPolls - 1 then waited ?t0 + pollInterval
                             else waited ?t0)\<rparr>)"
    using continuation_outcomes [where tenv = ?tenv1 and k = 0 and p = ?p and data = ?same
        and result = ?res1 and token = "JString (js ''empty_response_poll'')" and ttr = ?t0,
        THEN conjunct1, THEN mp, OF h1] .
  also have "\<dots> = (Inr (ReplyText (js ''rows'')), \<lparr>requests = [?p, ?p], waited = 2000\<rparr>)"
    by (simp add: poll_eval js_eval queryTable_loop.simps)
  finally have first: "queryTable_loop ?tenv1 0 ?p ?t0
          = (Inr (ReplyText (js ''rows'')), \<lparr>requests = [?p, ?p], waited = 2000\<rparr>)" .
  have "queryTable_loop ?tenv2 0 ?p ?t0
          = queryTable_loop ?tenv2 (Suc 0)
              (if JString (js ''t2'') = JString (js ''empty_response_poll'')
               then ?p
               else \<lparr>tableName = tableName ?p, filters = filters ?p,
                      pagination_limit = pagination_limit ?p,
                      pagination_offset = pagination_offset ?p,
                      order = order ?p,
                      next_page_token = Some (JString (js ''t2''))\<rparr>)
              (?t0\<lparr>requests := requests ?t0 @ [?p],
                  waited := (if 0 < maxPolls - 1 then waited ?t0 + pollInterval
                             else waited ?t0)\<rparr>)"
    using continuation_outcomes [where tenv = ?tenv2 and k = 0 and p = ?p and data = ?other
        and result = ?res2 and token = "JString (js ''t2'')" and ttr = ?t0,
        THEN conjunct1, THEN mp, OF h2] .
  also have "\<dots> = (Inr (ReplyText (js ''rows'')), \<lparr>requests = [?p, ?p2], waited = 2000\<rparr>)"
    by (simp add: poll_eval js_eval queryTable_loop.simps)
  finally have second: "queryTable_loop ?tenv2 0 ?p ?t0
          = (Inr (ReplyText (js ''rows'')), \<lparr>requests = [?p, ?p2], waited = 2000\<rparr>)" .
  have "pollSqlResults ?senv 10 2000 0 (JString (js ''/next/1'')) ?u0
          = pollSqlResults ?senv 10 2000 (Suc 0) (JString (js ''/next/2''))
              (?u0\<lparr>requests := requests ?u0 @ [JString (js ''/next/1'')],
                  waited := waited ?u0 + 2000\<rparr>)"
    using continuation_outcomes [where senv = ?senv and n = 0 and max_polls = 10
        and poll_interval = 2000 and url = "JString (js ''/next/1'')" and r = "json_response ?page"
        and pollResult = ?page and next_url = "JString (js ''/next/2'')" and tr = ?u0,
        THEN conjunct2, THEN mp, OF h3] .
  also have "\<dots> = (Inr (ReplyText (js ''rows'')),
        \<lparr>requests = [JString (js ''/next/1''), JString (js ''/next/2'')], waited = 4000\<rparr>)"
    by (simp add: poll_eval js_def rounds_to_zero_def pollSqlResults.simps)
  finally have third: "pollSqlResults ?senv 10 2000 0 (JString (js ''/next/1'')) ?u0
          = (Inr (ReplyText (js ''rows'')),
        \<lparr>requests = [JString (js ''/next/1''), JString (js ''/next/2'')], waited = 4000\<rparr>)" .
  from first second third show ?thesis by (intro conjI)
qed


subsection \<open>The number of attempts and the time waited\<close>



subsection \<open>The requests of a run\<close>











subsection \<open>The dispatch of a tool call\<close>

lemma call_tool_replies: "\<exists>reply. call_tool handlers name args = Inr reply"
  by (simp add: call_tool_def split: sum.split)

lemma switch_tool_unknown:
  assumes "name \<notin> set known_tools"
  shows "switch_tool handlers name args = Inl (UnknownTool name)"
  using assms by (auto simp: switch_tool_def known_tools_def)

text \<open>
  C8. Every call of a tool is answered with a reply. A name outside the six known tools
  raises \<open>Unknown tool\<close> inside the \<open>try\<close>, and whatever the \<open>switch\<close> raises, that error
  or the error of a handler, comes back as the reply \<open>Error: ...\<close>; what a handler
  returns comes back as it is. Each known name runs its own handler.
\<close>

theorem call_tool_always_replies:
  "(\<exists>reply. call_tool handlers name args = Inr reply)
   \<and> (name \<notin> set known_tools
        \<longrightarrow> switch_tool handlers name args = Inl (UnknownTool name)
          \<and> call_tool handlers name args = Inr (ErrorText (UnknownTool name)))
   \<and> (switch_tool handlers name args = Inl e
        \<longrightarrow> call_tool handlers name args = Inr (ErrorText e))
   \<and> (switch_tool handlers name args = Inr reply
        \<longrightarrow> call_tool handlers name args = Inr reply)
   \<and> switch_tool handlers (js ''list_collections'') args = listCollections handlers args
   \<and> switch_tool handlers (js ''list_tables'') args = listTables handlers args
   \<and> switch_tool handlers (js ''get_schema_fields'') args = getSchemaFields handlers args
   \<and> switch_tool handlers (js ''query_table'') args = queryTable_handler handlers args
   \<and> switch_tool handlers (js ''count_rows'') args = countRows handlers args
   \<and> switch_tool handlers (js ''sql_search'') args = sqlSearch_handler handlers args"
proof (intro conjI impI)
  show "\<exists>reply. call_tool handlers name args = Inr reply"
    by (rule call_tool_replies)
next
  assume "name \<notin> set known_tools"
  then show "switch_tool handlers name args = Inl (UnknownTool name)"
    by (rule switch_tool_unknown)
next
  assume "name \<notin> set known_tools"
  then have "switch_tool handlers name args = Inl (UnknownTool name)"
    by (rule switch_tool_unknown)
  then show "call_tool handlers name args = Inr (ErrorText (UnknownTool name))"
    by (simp add: call_tool_def)
next
  assume "switch_tool handlers name args = Inl e"
  then show "call_tool handlers name args = Inr (ErrorText e)"
    by (simp add: call_tool_def)
next
  assume "switch_tool handlers name args = Inr reply"
  then show "call_tool handlers name args = Inr reply"
    by (simp add: call_tool_def)
qed (simp_all add: switch_tool_def js_def)

theorem call_tool_always_replies_witness:
  "call_tool
     \<lparr>listCollections = (\<lambda>args. Inr (ReplyText (js ''collections''))),
      listTables = (\<lambda>args. Inr (ReplyText (js ''tables''))),
      getSchemaFields = (\<lambda>args. Inr (ReplyText (js ''fields''))),
      queryTable_handler = (\<lambda>args. Inl (FailedToQueryTable (QueryTimedOut maxPolls))),
      countRows = (\<lambda>args. Inr (ReplyText (js ''count''))),
      sqlSearch_handler = (\<lambda>args. Inr SqlNoResults)\<rparr>
     (js ''drop_table'') JNull
     = Inr (ErrorText (UnknownTool (js ''drop_table'')))
   \<and> call_tool
     \<lparr>listCollections = (\<lambda>args. Inr (ReplyText (js ''collections''))),
      listTables = (\<lambda>args. Inr (ReplyText (js ''tables''))),
      getSchemaFields = (\<lambda>args. Inr (ReplyText (js ''fields''))),
      queryTable_handler = (\<lambda>args. Inl (FailedToQueryTable (QueryTimedOut maxPolls))),
      countRows = (\<lambda>args. Inr (ReplyText (js ''count''))),
      sqlSearch_handler = (\<lambda>args. Inr SqlNoResults)\<rparr>
     (js ''query_table'') JNull
     = Inr (ErrorText (FailedToQueryTable (QueryTimedOut maxPolls)))
   \<and> call_tool
     \<lparr>listCollections = (\<lambda>args. Inr (ReplyText (js ''collections''))),
      listTables = (\<lambda>args. Inr (ReplyText (js ''tables''))),
      getSchemaFields = (\<lambda>args. Inr (ReplyText (js ''fields''))),
      queryTable_handler = (\<lambda>args. Inl (FailedToQueryTable (QueryTimedOut maxPolls))),
      countRows = (\<lambda>args. Inr (ReplyText (js ''count''))),
      sqlSearch_handler = (\<lambda>args. Inr SqlNoResults)\<rparr>
     (js ''sql_search'') JNull
     = Inr SqlNoResults"
proof -
  let ?h = "\<lparr>listCollections = (\<lambda>args :: json. Inr (ReplyText (js ''collections''))),
      listTables = (\<lambda>args. Inr (ReplyText (js ''tables''))),
      getSchemaFields = (\<lambda>args. Inr (ReplyText (js ''fields''))),
      queryTable_handler = (\<lambda>args. Inl (FailedToQueryTable (QueryTimedOut maxPolls))),
      countRows = (\<lambda>args. Inr (ReplyText (js ''count''))),
      sqlSearch_handler = (\<lambda>args. Inr SqlNoResults)\<rparr>"
  have unknown: "js ''drop_table'' \<notin> set known_tools"
    by (simp add: known_tools_def js_def)
  have failed: "switch_tool ?h (js ''query_table'') JNull
                  = Inl (FailedToQueryTable (QueryTimedOut maxPolls))"
    by (simp add: switch_tool_def js_def)
  have answered: "switch_tool ?h (js ''sql_search'') JNull = Inr SqlNoResults"
    by (simp add: switch_tool_def js_def)
  note at_unknown = call_tool_always_replies [where handlers = ?h and name = "js ''drop_table''"
      and args = JNull]
  note at_failed = call_tool_always_replies [where handlers = ?h and name = "js ''query_table''"
      and args = JNull and e = "FailedToQueryTable (QueryTimedOut maxPolls)"]
  note at_answered = call_tool_always_replies [where handlers = ?h and name = "js ''sql_search''"
      and args = JNull and reply = SqlNoResults]
  have "call_tool ?h (js ''drop_table'') JNull = Inr (ErrorText (UnknownTool (js ''drop_table'')))"
    using at_unknown unknown by blast
  moreover have "call_tool ?h (js ''query_table'') JNull
                   = Inr (ErrorText (FailedToQueryTable (QueryTimedOut maxPolls)))"
    using at_failed failed by blast
  moreover have "call_tool ?h (js ''sql_search'') JNull = Inr SqlNoResults"
    using at_answered answered by blast
  ultimately show ?thesis by (intro conjI)
qed


subsection \<open>The network-address resolver\<close>

lemma startsWith_iff: "startsWith s p \<longleftrightarrow> (\<exists>r. s = p @ r)"
  unfolding startsWith_def by (metis append_eq_conv_conj append_take_drop_id)

lemma endsWith_iff: "endsWith s p \<longleftrightarrow> (\<exists>t. s = t @ p)"
proof -
  have "endsWith s p \<longleftrightarrow> (\<exists>r. rev s = rev p @ r)"
    by (simp add: endsWith_def startsWith_iff)
  also have "\<dots> \<longleftrightarrow> (\<exists>t. s = t @ p)"
    by (metis rev_append rev_rev_ident)
  finally show ?thesis .
qed

lemma startsWithD: "startsWith s p \<Longrightarrow> \<exists>r. s = p @ r"
  by (simp add: startsWith_iff)

lemma scheme_not_known:
  assumes "startsWith u (js ''http://'') \<or> startsWith u (js ''https://'')"
  shows "map_of knownNetworks u = None" and "u \<notin> set Object_prototype_properties"
  using assms
  by (auto dest!: startsWithD simp: knownNetworks_def Object_prototype_properties_def js_def)

lemma with_scheme_has_scheme:
  "startsWith (with_scheme n) (js ''http://'') \<or> startsWith (with_scheme n) (js ''https://'')"
  by (auto simp: with_scheme_def startsWith_def)

lemma getNetworkUrl_of_url:
  assumes "startsWith u (js ''http://'') \<or> startsWith u (js ''https://'')"
  shows "getNetworkUrl u = Inr (strip_trailing_slash u)"
proof -
  have "with_scheme u = u" using assms by (auto simp: with_scheme_def)
  then show ?thesis
    using scheme_not_known [OF assms] by (simp add: getNetworkUrl_def)
qed

lemma strip_keeps_scheme:
  assumes sch: "startsWith s (js ''http://'') \<or> startsWith s (js ''https://'')"
    and nss: "\<not> endsWith s (js ''//'')"
  shows "(startsWith (strip_trailing_slash s) (js ''http://'')
           \<or> startsWith (strip_trailing_slash s) (js ''https://''))
         \<and> \<not> endsWith (strip_trailing_slash s) (js ''/'')"
proof (cases "endsWith s (js ''/'')")
  case False
  then show ?thesis using sch by (simp add: strip_trailing_slash_def)
next
  case True
  then obtain t where s: "s = t @ [47]" by (auto simp: endsWith_iff js_def)
  have strip: "strip_trailing_slash s = t"
    using True s by (simp add: strip_trailing_slash_def)
  have t_end: "\<not> endsWith t (js ''/'')"
  proof
    assume "endsWith t (js ''/'')"
    then obtain t' where "t = t' @ [47]" by (auto simp: endsWith_iff js_def)
    then have "s = t' @ js ''//''" using s by (simp add: js_def)
    then show False using nss endsWith_iff by blast
  qed
  from sch have "\<exists>p r. (p = js ''http:'' \<or> p = js ''https:'') \<and> s = p @ [47, 47] @ r"
  proof
    assume "startsWith s (js ''http://'')"
    then obtain r where "s = js ''http://'' @ r" using startsWithD by blast
    then have "s = js ''http:'' @ [47, 47] @ r" by (simp add: js_def)
    then show ?thesis by blast
  next
    assume "startsWith s (js ''https://'')"
    then obtain r where "s = js ''https://'' @ r" using startsWithD by blast
    then have "s = js ''https:'' @ [47, 47] @ r" by (simp add: js_def)
    then show ?thesis by blast
  qed
  then obtain p r where p: "p = js ''http:'' \<or> p = js ''https:''" and sr: "s = p @ [47, 47] @ r"
    by blast
  have "r \<noteq> []"
  proof
    assume "r = []"
    then have "s = p @ js ''//''" using sr by (simp add: js_def)
    then show False using nss endsWith_iff by blast
  qed
  then obtain r' x where r: "r = r' @ [x]" by (metis append_butlast_last_id)
  then have "t @ [47] = (p @ [47, 47] @ r') @ [x]" using s sr by simp
  then have "t = p @ [47, 47] @ r'" by (simp only: append1_eq_conv)
  then have "startsWith t (js ''http://'') \<or> startsWith t (js ''https://'')"
    using p by (auto simp: startsWith_def js_def)
  then show ?thesis using strip t_end by simp
qed

lemma with_scheme_no_double_slash:
  assumes "n \<noteq> []" and "n \<noteq> js ''/''" and "\<not> endsWith n (js ''//'')"
  shows "\<not> endsWith (with_scheme n) (js ''//'')"
proof (cases "with_scheme n = n")
  case True
  then show ?thesis using assms by simp
next
  case False
  then have ws: "with_scheme n = js ''https://'' @ n"
    by (auto simp: with_scheme_def split: if_splits)
  consider x where "n = [x]" | m x y where "n = m @ [x, y]"
    using assms(1) by (metis append_butlast_last_id append_Nil append_Cons append_assoc)
  then show ?thesis
  proof cases
    case 1
    then show ?thesis using assms(2) ws
      by (auto simp: endsWith_def startsWith_def js_def)
  next
    case 2
    then show ?thesis using assms(3) ws
      by (auto simp: endsWith_def startsWith_def js_def)
  qed
qed

lemma known_host_no_double_slash:
  assumes "map_of knownNetworks n = Some host"
  shows "\<not> endsWith (with_scheme host) (js ''//'')"
proof -
  have "(n, host) \<in> set knownNetworks" using assms by (rule map_of_SomeD)
  then show ?thesis
    by (auto simp: knownNetworks_def with_scheme_def endsWith_def startsWith_def js_def)
qed

text \<open>
  C10, as the code has it. For every input that is not one of the names that
  \<open>Object.prototype\<close> defines, is not empty, is not a single slash and does not end in two
  slashes, the resolver returns a URL that it maps to itself, that begins with
  \<open>http://\<close> or \<open>https://\<close>, and that does not end in a slash.
\<close>

theorem getNetworkUrl_idempotent_on_resolved:
  assumes "network \<notin> set Object_prototype_properties"
    and "network \<noteq> []" and "network \<noteq> js ''/''" and "\<not> endsWith network (js ''//'')"
  shows "\<exists>url. getNetworkUrl network = Inr url \<and> getNetworkUrl url = Inr url
           \<and> (startsWith url (js ''http://'') \<or> startsWith url (js ''https://''))
           \<and> \<not> endsWith url (js ''/'')"
proof -
  obtain s where res: "getNetworkUrl network = Inr (strip_trailing_slash s)"
    and sch: "startsWith s (js ''http://'') \<or> startsWith s (js ''https://'')"
    and nss: "\<not> endsWith s (js ''//'')"
  proof (cases "map_of knownNetworks network")
    case None
    show ?thesis
    proof (rule that [of "with_scheme network"])
      show "getNetworkUrl network = Inr (strip_trailing_slash (with_scheme network))"
        using None assms(1) by (simp add: getNetworkUrl_def)
      show "startsWith (with_scheme network) (js ''http://'')
              \<or> startsWith (with_scheme network) (js ''https://'')"
        by (rule with_scheme_has_scheme)
      show "\<not> endsWith (with_scheme network) (js ''//'')"
        using assms(2,3,4) by (rule with_scheme_no_double_slash)
    qed
  next
    case (Some host)
    show ?thesis
    proof (rule that [of "with_scheme host"])
      show "getNetworkUrl network = Inr (strip_trailing_slash (with_scheme host))"
        using Some by (simp add: getNetworkUrl_def)
      show "startsWith (with_scheme host) (js ''http://'')
              \<or> startsWith (with_scheme host) (js ''https://'')"
        by (rule with_scheme_has_scheme)
      show "\<not> endsWith (with_scheme host) (js ''//'')"
        using Some by (rule known_host_no_double_slash)
    qed
  qed
  let ?url = "strip_trailing_slash s"
  have keep: "(startsWith ?url (js ''http://'') \<or> startsWith ?url (js ''https://''))
                \<and> \<not> endsWith ?url (js ''/'')"
    using sch nss by (rule strip_keeps_scheme)
  then have "getNetworkUrl ?url = Inr (strip_trailing_slash ?url)"
    using getNetworkUrl_of_url by blast
  moreover have "strip_trailing_slash ?url = ?url"
    using keep by (simp add: strip_trailing_slash_def)
  ultimately show ?thesis using res keep by auto
qed

theorem getNetworkUrl_idempotent_on_resolved_witness:
  "js ''viral.ai/'' \<notin> set Object_prototype_properties
   \<and> js ''viral.ai/'' \<noteq> [] \<and> js ''viral.ai/'' \<noteq> js ''/''
   \<and> \<not> endsWith (js ''viral.ai/'') (js ''//'')
   \<and> getNetworkUrl (js ''viral.ai/'') = Inr (js ''https://viral.ai'')
   \<and> getNetworkUrl (js ''https://viral.ai'') = Inr (js ''https://viral.ai'')"
proof -
  have h: "js ''viral.ai/'' \<notin> set Object_prototype_properties"
    "js ''viral.ai/'' \<noteq> []" "js ''viral.ai/'' \<noteq> js ''/''"
    "\<not> endsWith (js ''viral.ai/'') (js ''//'')"
    by (simp_all add: Object_prototype_properties_def endsWith_def startsWith_def js_def)
  have v: "getNetworkUrl (js ''viral.ai/'') = Inr (js ''https://viral.ai'')"
    by (simp add: getNetworkUrl_def js_def knownNetworks_def Object_prototype_properties_def
        with_scheme_def strip_trailing_slash_def endsWith_def startsWith_def)
  from getNetworkUrl_idempotent_on_resolved [OF h] v h show ?thesis by auto
qed

text \<open>
  The claim as stated fails where the input ends in two slashes: the pattern removes one
  slash, the result still ends in a slash, and resolving it again gives a different URL.
  It fails on the empty string, whose result \<open>https:/\<close> has lost a slash of the scheme,
  and on the single slash, whose result is \<open>https://\<close>.
\<close>

theorem getNetworkUrl_double_slash_counterexample:
  "getNetworkUrl (js ''a//'') = Inr (js ''https://a/'')
   \<and> getNetworkUrl (js ''https://a/'') = Inr (js ''https://a'')
   \<and> endsWith (js ''https://a/'') (js ''/'')
   \<and> getNetworkUrl [] = Inr (js ''https:/'')
   \<and> \<not> startsWith (js ''https:/'') (js ''http://'')
   \<and> \<not> startsWith (js ''https:/'') (js ''https://'')
   \<and> getNetworkUrl (js ''/'') = Inr (js ''https://'')
   \<and> endsWith (js ''https://'') (js ''/'')"
  by (simp add: getNetworkUrl_def js_def knownNetworks_def Object_prototype_properties_def
      with_scheme_def strip_trailing_slash_def endsWith_def startsWith_def)


end
